(* ===== verification/Prelude.thy ===== *)
theory Prelude
  imports Main "HOL-Library.Word" "HOL-Library.Multiset"
begin

text \<open>
  Shared vocabulary of the development: the collections of rewrite rules the component
  theories fill, and the generic list operation the DOM model is built on.  A DOM query
  such as \<open>document.querySelector('[name="x"]')\<close> returns the first element, in
  document order, that matches a selector; a mutation through that reference changes
  exactly that element.  \<open>upd_first P f xs\<close> is that pattern: apply \<open>f\<close> to the first
  element of \<open>xs\<close> satisfying \<open>P\<close>, leave the list unchanged when there is none.
\<close>

named_theorems js_simps "evaluation rules of the modelled JavaScript builtins"
named_theorems dom_simps "rules for DOM queries after DOM updates"

fun upd_first :: "('a \<Rightarrow> bool) \<Rightarrow> ('a \<Rightarrow> 'a) \<Rightarrow> 'a list \<Rightarrow> 'a list" where
  "upd_first P f [] = []"
| "upd_first P f (x # xs) = (if P x then f x # xs else x # upd_first P f xs)"

subsection \<open>Facts about \<open>upd_first\<close>\<close>

lemma upd_first_no_match [simp]:
  "\<not> list_ex P xs \<Longrightarrow> upd_first P f xs = xs"
  by (induction xs) auto

lemma length_upd_first [simp]: "length (upd_first P f xs) = length xs"
  by (induction xs) auto

lemma map_upd_first_inv [dom_simps]:
  "(\<And>x. g (f x) = g x) \<Longrightarrow> map g (upd_first P f xs) = map g xs"
  by (induction xs) auto

lemma find_upd_first_same [dom_simps]:
  "(\<And>x. P x \<Longrightarrow> P (f x)) \<Longrightarrow> find P (upd_first P f xs) = map_option f (find P xs)"
  by (induction xs) auto

lemma find_upd_first_other [dom_simps]:
  "(\<And>x. Q (f x) = Q x) \<Longrightarrow> (\<And>x. Q x \<Longrightarrow> \<not> P x) \<Longrightarrow> find Q (upd_first P f xs) = find Q xs"
  by (induction xs) auto

lemma set_upd_first: "set (upd_first P f xs) \<subseteq> set xs \<union> f ` set xs"
  by (induction xs) auto

lemma list_all_upd_first [dom_simps]:
  "(\<And>x. Q x \<Longrightarrow> Q (f x)) \<Longrightarrow> list_all Q xs \<Longrightarrow> list_all Q (upd_first P f xs)"
  by (induction xs) auto

lemma list_ex_upd_first_inv [dom_simps]:
  "(\<And>x. Q (f x) = Q x) \<Longrightarrow> list_ex Q (upd_first P f xs) = list_ex Q xs"
  by (induction xs) auto

lemma map_update_inv:
  "(\<And>x. g (f x) = g x) \<Longrightarrow> map g (xs[i := f (xs ! i)]) = map g xs"
  by (induction xs arbitrary: i) (auto split: nat.splits)

subsection \<open>Options and finds\<close>

lemma find_Some_in_set: "find P xs = Some x \<Longrightarrow> x \<in> set xs \<and> P x"
  by (induction xs) (auto split: if_splits)

lemma find_None_iff_not_ex: "find P xs = None \<longleftrightarrow> \<not> list_ex P xs"
  by (induction xs) auto

lemma find_cong_set: "(\<And>x. x \<in> set xs \<Longrightarrow> P x = Q x) \<Longrightarrow> find P xs = find Q xs"
  by (induction xs) auto

lemma find_first_nth:
  "i < length xs \<Longrightarrow> P (xs ! i) \<Longrightarrow> (\<forall>j<i. \<not> P (xs ! j)) \<Longrightarrow> find P xs = Some (xs ! i)"
  by (auto simp: find_Some_iff)

lemma find_upt_nth:
  "find (\<lambda>i. P (xs ! i)) [0..<length xs] = Some i \<Longrightarrow> i < length xs \<and> P (xs ! i) \<and> (\<forall>j<i. \<not> P (xs ! j))"
  by (auto simp: find_Some_iff)

lemma upd_first_nth:
  "i < length xs \<Longrightarrow> P (xs ! i) \<Longrightarrow> (\<forall>j<i. \<not> P (xs ! j)) \<Longrightarrow> upd_first P f xs ! i = f (xs ! i)"
proof (induction xs arbitrary: i)
  case (Cons x xs)
  show ?case
  proof (cases i)
    case 0
    with Cons.prems show ?thesis by simp
  next
    case (Suc k)
    with Cons.prems have "\<not> P x" and "\<forall>j<k. \<not> P (xs ! j)" by (auto dest: spec [of _ 0] spec [of _ "Suc j" for j])
    with Cons Suc show ?thesis by simp
  qed
qed simp

lemma find_map_eq [dom_simps]: "find P (map f xs) = map_option f (find (P \<circ> f) xs)"
  by (induction xs) auto

lemma find_map_cong:
  "map g xs = map g ys \<Longrightarrow> (\<And>x. P (g x) = P x) \<Longrightarrow>
   map_option g (find P xs) = map_option g (find P ys)"
proof (induction xs arbitrary: ys)
  case Nil
  then show ?case by simp
next
  case (Cons x xs)
  then obtain y ys' where ys: "ys = y # ys'" and gy: "g x = g y" and rest: "map g xs = map g ys'"
    by (cases ys) auto
  have "P x = P y" using Cons.prems(2) [of x] Cons.prems(2) [of y] gy by simp
  with ys gy rest Cons.IH Cons.prems(2) show ?case by auto
qed

lemma list_ex_map_cong:
  "map g xs = map g ys \<Longrightarrow> (\<And>x. P (g x) = P x) \<Longrightarrow> list_ex P xs = list_ex P ys"
  by (metis (mono_tags, lifting) list_ex_iff set_map image_iff)

lemma find_unique_key:
  "distinct (map fst xs) \<Longrightarrow> (k, v) \<in> set xs \<Longrightarrow> Q v \<Longrightarrow>
   find (\<lambda>t. fst t = k \<and> Q (snd t)) xs = Some (k, v)"
  by (induction xs) (auto simp: image_iff)

lemma distinct_map_mset_eq:
  "mset xs = mset ys \<Longrightarrow> distinct (map f xs) = distinct (map f ys)"
  by (rule mset_eq_imp_distinct_iff) simp

end
