(* ===== verification/JsString.thy ===== *)
theory JsString
  imports Prelude
begin

text \<open>
  The JavaScript string builtins the script calls.  A JavaScript string is a sequence of
  UTF-16 code units, so it is modelled as a list of \<open>16 word\<close>: \<open>length\<close> is the
  value of \<open>.length\<close> and a non-ASCII letter such as \<open>\<acute>e\<close> is the single code unit
  \<open>0xE9\<close>.  \<open>js_str\<close> turns an ASCII literal of HOL into such a string.  The
  definitions follow ECMAScript: \<open>\s\<close> and \<open>trim\<close> use the WhiteSpace and
  LineTerminator code points, \<open>\d\<close> is \<open>[0-9]\<close>, and \<open>replace\<close> with a
  string pattern replaces the first occurrence only.
\<close>

type_synonym jsstring = "16 word list"

definition js_str :: "string \<Rightarrow> jsstring" where
  "js_str s = map (\<lambda>c. of_nat (of_char c)) s"

lemma js_str_simps [simp, js_simps]:
  "js_str [] = []" "js_str (c # cs) = of_nat (of_char c) # js_str cs"
  "js_str (xs @ ys) = js_str xs @ js_str ys"
  by (simp_all add: js_str_def)

lemma length_js_str [simp]: "length (js_str s) = length s"
  by (simp add: js_str_def)

text \<open>The character class \<open>\s\<close> (WhiteSpace and LineTerminator of ECMAScript).\<close>

definition js_is_ws :: "16 word \<Rightarrow> bool" where
  "js_is_ws c \<longleftrightarrow> c = 0x09 \<or> c = 0x0A \<or> c = 0x0B \<or> c = 0x0C \<or> c = 0x0D \<or> c = 0x20
     \<or> c = 0xA0 \<or> c = 0x1680 \<or> (0x2000 \<le> c \<and> c \<le> 0x200A) \<or> c = 0x2028 \<or> c = 0x2029
     \<or> c = 0x202F \<or> c = 0x205F \<or> c = 0x3000 \<or> c = 0xFEFF"

text \<open>The character class \<open>\d\<close>: the ASCII digits only.\<close>

definition js_is_digit :: "16 word \<Rightarrow> bool" where
  "js_is_digit c \<longleftrightarrow> 0x30 \<le> c \<and> c \<le> 0x39"

text \<open>\<open>String.prototype.trim\<close>.\<close>

definition js_trim :: "jsstring \<Rightarrow> jsstring" where
  "js_trim s = rev (dropWhile js_is_ws (rev (dropWhile js_is_ws s)))"

text \<open>\<open>String.prototype.replace(pat, rep)\<close> with a string (not a regular expression)
  pattern: the first occurrence of \<open>pat\<close>, if any, is replaced.\<close>

fun js_replace_first :: "jsstring \<Rightarrow> jsstring \<Rightarrow> jsstring \<Rightarrow> jsstring" where
  "js_replace_first pat rep [] = (if pat = [] then rep else [])"
| "js_replace_first pat rep (c # cs) =
     (if take (length pat) (c # cs) = pat then rep @ drop (length pat) (c # cs)
      else c # js_replace_first pat rep cs)"

subsection \<open>Facts about the builtins\<close>

lemma dropWhile_no_match: "\<not> list_ex P xs \<Longrightarrow> dropWhile P xs = xs"
  by (induction xs) auto

lemma list_all_dropWhile_iff: "list_all P (dropWhile P xs) \<longleftrightarrow> dropWhile P xs = []"
  by (induction xs) auto

lemma js_trim_empty_iff [js_simps]: "js_trim s = [] \<longleftrightarrow> list_all js_is_ws s"
proof -
  let ?t = "dropWhile js_is_ws s"
  have "js_trim s = [] \<longleftrightarrow> dropWhile js_is_ws (rev ?t) = []"
    by (simp add: js_trim_def)
  also have "\<dots> \<longleftrightarrow> list_all js_is_ws ?t"
    by (simp only: dropWhile_eq_Nil_conv set_rev list_all_iff)
  also have "\<dots> \<longleftrightarrow> ?t = []"
    by (rule list_all_dropWhile_iff)
  also have "\<dots> \<longleftrightarrow> list_all js_is_ws s"
    by (simp only: dropWhile_eq_Nil_conv list_all_iff)
  finally show ?thesis .
qed

lemma js_trim_no_ws [js_simps]: "\<not> list_ex js_is_ws s \<Longrightarrow> js_trim s = s"
  by (simp add: js_trim_def dropWhile_no_match)

lemma js_is_digit_not_ws: "js_is_digit c \<Longrightarrow> \<not> js_is_ws c"
  by (auto simp: js_is_digit_def js_is_ws_def word_le_nat_alt)

lemma js_replace_first_no_occurrence:
  "pat \<noteq> [] \<Longrightarrow> \<not> (\<exists>i. take (length pat) (drop i s) = pat) \<Longrightarrow> js_replace_first pat rep s = s"
proof (induction s)
  case Nil
  then show ?case by simp
next
  case (Cons c cs)
  have "take (length pat) (c # cs) \<noteq> pat" using Cons.prems(2) by (metis drop0)
  moreover have "\<not> (\<exists>i. take (length pat) (drop i cs) = pat)"
    using Cons.prems(2) by (metis drop_Suc_Cons)
  ultimately show ?case using Cons by simp
qed

end
