(* ===== verification/Dom.thy ===== *)
theory Dom
  imports JsString
begin

text \<open>
  The page the script runs on, and the Error Presenter of src/script.js
  (\<open>showError\<close>, \<open>clearError\<close>, \<open>clearAllErrors\<close>, lines 215--254) together with the
  Field Registry (\<open>requiredFields\<close>, line 8).

  The HTML page is not part of the repository, so the document is a parameter: a record
  of the named form controls in document order, the error-message slots, the labels, the
  upload display and the submit button.  Names and ids are written by the page author
  and are plain ASCII identifiers (\<open>string\<close>); everything a user types, and every text
  the script writes, is a \<open>jsstring\<close>.  A query that finds no element yields
  \<open>None\<close>; the script dereferences some of those results without a check, which is a
  \<open>TypeError\<close> (an error value of the model, see \<open>js_error\<close>).
\<close>

datatype input_type =
    Text | Email | Tel | Date | Password | Textarea | Select
  | Radio | Checkbox | File | Button

record jsfile =
  fname :: jsstring
  fmime :: string
  fsize :: nat

record control =
  cname :: string
  cid :: string
  ctype :: input_type
  cvalue :: jsstring
  cchecked :: bool
  cdisabled :: bool
  cerror :: bool
  cfiles :: "jsfile list"
  cdef_value :: jsstring
  cdef_checked :: bool

record slot =
  sid :: string
  smsg :: bool
  stext :: jsstring

record button =
  bdisabled :: bool
  bhtml :: jsstring

record doc =
  controls :: "control list"
  slots :: "slot list"
  labels :: "(string \<times> jsstring) list"
  file_display :: jsstring
  submit_btn :: "button option"

datatype js_error = TypeError

text \<open>
  An event handler runs on the document and either returns normally, with a value and the
  new document, or throws; a throw keeps the DOM writes made before it.
\<close>

type_synonym 'a dom_result = "(js_error \<times> doc) + ('a \<times> doc)"

subsection \<open>Field Registry\<close>

definition requiredFields :: "string list" where
  "requiredFields = [''fullName'', ''email'', ''phone'', ''birthDate'', ''gender'', ''password'', ''acceptTerms'']"

subsection \<open>Queries\<close>

text \<open>\<open>document.querySelector('[name="n"]')\<close>: the first element named \<open>n\<close>.\<close>

definition query_name :: "string \<Rightarrow> doc \<Rightarrow> control option" where
  "query_name n d = find (\<lambda>c. cname c = n) (controls d)"

text \<open>\<open>document.getElementById(i)\<close> on the controls and on the error slots.\<close>

definition control_by_id :: "string \<Rightarrow> doc \<Rightarrow> control option" where
  "control_by_id i d = find (\<lambda>c. cid c = i) (controls d)"

definition slot_by_id :: "string \<Rightarrow> doc \<Rightarrow> slot option" where
  "slot_by_id i d = find (\<lambda>s. sid s = i) (slots d)"

text \<open>\<open>document.querySelector('label[for="n"]').textContent\<close>.\<close>

definition label_text :: "string \<Rightarrow> doc \<Rightarrow> jsstring option" where
  "label_text n d = map_of (labels d) n"

text \<open>The selector \<open>:checked\<close> matches checked radio buttons and checkboxes.\<close>

definition is_checkable :: "control \<Rightarrow> bool" where
  "is_checkable c \<longleftrightarrow> ctype c = Radio \<or> ctype c = Checkbox"

text \<open>The id of the error slot of a field: \<open>`${fieldName}-error`\<close>.\<close>

definition err_id :: "string \<Rightarrow> string" where
  "err_id n = n @ ''-error''"

subsection \<open>Error Presenter\<close>

text \<open>
  \<open>showError(fieldName, message)\<close>: write the message into the slot with id
  \<open>fieldName-error\<close> if there is one, and add the class \<open>error\<close> to the first
  element named \<open>fieldName\<close> if there is one and it is not a radio button or a
  checkbox.  \<open>clearError\<close> is the same with the empty text and the class removed.
\<close>

definition set_slot_text :: "string \<Rightarrow> jsstring \<Rightarrow> doc \<Rightarrow> doc" where
  "set_slot_text n msg d =
     d\<lparr>slots := upd_first (\<lambda>s. sid s = err_id n) (\<lambda>s. s\<lparr>stext := msg\<rparr>) (slots d)\<rparr>"

definition set_field_error :: "string \<Rightarrow> bool \<Rightarrow> doc \<Rightarrow> doc" where
  "set_field_error n b d =
     d\<lparr>controls := upd_first (\<lambda>c. cname c = n)
        (\<lambda>c. if ctype c \<noteq> Radio \<and> ctype c \<noteq> Checkbox then c\<lparr>cerror := b\<rparr> else c) (controls d)\<rparr>"

definition showError :: "string \<Rightarrow> jsstring \<Rightarrow> doc \<Rightarrow> doc" where
  "showError n msg d = set_field_error n True (set_slot_text n msg d)"

definition clearError :: "string \<Rightarrow> doc \<Rightarrow> doc" where
  "clearError n d = set_field_error n False (set_slot_text n [] d)"

text \<open>
  \<open>clearAllErrors()\<close>: empty every element of class \<open>error-message\<close> and remove the
  class \<open>error\<close> from every element that has it.
\<close>

definition clearAllErrors :: "doc \<Rightarrow> doc" where
  "clearAllErrors d =
     d\<lparr>slots := map (\<lambda>s. if smsg s then s\<lparr>stext := []\<rparr> else s) (slots d),
       controls := map (\<lambda>c. c\<lparr>cerror := False\<rparr>) (controls d)\<rparr>"

text \<open>
  What the Validator reads from the page: every control with its error class
  forgotten, and the labels.  The Error Presenter writes only error classes and slot
  texts, so it leaves this view unchanged.
\<close>

definition erase :: "control \<Rightarrow> control" where
  "erase c = c\<lparr>cerror := False\<rparr>"

definition form_view :: "doc \<Rightarrow> control list \<times> (string \<times> jsstring) list" where
  "form_view d = (map erase (controls d), labels d)"

definition present :: "(string \<times> jsstring) list \<Rightarrow> doc \<Rightarrow> doc" where
  "present ms d = fold (\<lambda>(n, m). showError n m) ms d"

subsection \<open>The presenter leaves the form view unchanged\<close>

lemma erase_sel [simp]:
  "cname (erase c) = cname c" "cid (erase c) = cid c" "ctype (erase c) = ctype c"
  "cvalue (erase c) = cvalue c" "cchecked (erase c) = cchecked c"
  "cdisabled (erase c) = cdisabled c" "cfiles (erase c) = cfiles c"
  by (simp_all add: erase_def)

lemma erase_cerror_upd [simp]: "erase (c\<lparr>cerror := b\<rparr>) = erase c"
  by (simp add: erase_def)

lemma form_view_showError [dom_simps]: "form_view (showError n m d) = form_view d"
  by (simp add: form_view_def showError_def set_field_error_def set_slot_text_def map_upd_first_inv)

lemma form_view_clearError [dom_simps]: "form_view (clearError n d) = form_view d"
  by (simp add: form_view_def clearError_def set_field_error_def set_slot_text_def map_upd_first_inv)

lemma form_view_clearAllErrors [dom_simps]: "form_view (clearAllErrors d) = form_view d"
  by (simp add: form_view_def clearAllErrors_def comp_def)

lemma form_view_present [dom_simps]: "form_view (present ms d) = form_view d"
  by (induction ms arbitrary: d) (auto simp: present_def form_view_showError)

lemma present_Cons [simp]: "present ((n, m) # ms) d = present ms (showError n m d)"
  by (simp add: present_def)

lemma present_Nil [simp]: "present [] d = d"
  by (simp add: present_def)

lemma present_append: "present (ms @ ms') d = present ms' (present ms d)"
  by (simp add: present_def)

text \<open>Queries that agree on two documents with the same form view.\<close>

lemma query_name_view:
  "form_view d = form_view d' \<Longrightarrow> map_option erase (query_name n d) = map_option erase (query_name n d')"
  unfolding form_view_def query_name_def by (rule find_map_cong) simp_all

lemma control_by_id_view:
  "form_view d = form_view d' \<Longrightarrow> map_option erase (control_by_id i d) = map_option erase (control_by_id i d')"
  unfolding form_view_def control_by_id_def by (rule find_map_cong) simp_all

lemma label_text_view: "form_view d = form_view d' \<Longrightarrow> label_text n d = label_text n d'"
  by (simp add: form_view_def label_text_def)

lemma list_ex_controls_view:
  "form_view d = form_view d' \<Longrightarrow> (\<And>c. P (erase c) = P c) \<Longrightarrow>
   list_ex P (controls d) = list_ex P (controls d')"
  using list_ex_map_cong [of erase "controls d" "controls d'" P] by (simp add: form_view_def)

subsection \<open>Error slots after the presenter\<close>

lemma slot_by_id_set_slot_text:
  "slot_by_id i (set_slot_text n m d) =
     (if i = err_id n then map_option (\<lambda>s. s\<lparr>stext := m\<rparr>) (slot_by_id i d) else slot_by_id i d)"
proof (cases "i = err_id n")
  case True
  then show ?thesis by (simp add: slot_by_id_def set_slot_text_def find_upd_first_same)
next
  case False
  then have "find (\<lambda>s. sid s = i) (upd_first (\<lambda>s. sid s = err_id n) (\<lambda>s. s\<lparr>stext := m\<rparr>) (slots d)) =
             find (\<lambda>s. sid s = i) (slots d)"
    by (intro find_upd_first_other) auto
  with False show ?thesis by (simp add: slot_by_id_def set_slot_text_def)
qed

lemma slots_set_field_error [simp]: "slots (set_field_error n b d) = slots d"
  by (simp add: set_field_error_def)

lemma slot_by_id_showError [dom_simps]:
  "slot_by_id i (showError n m d) =
     (if i = err_id n then map_option (\<lambda>s. s\<lparr>stext := m\<rparr>) (slot_by_id i d) else slot_by_id i d)"
  by (simp add: showError_def slot_by_id_set_slot_text [symmetric] slot_by_id_def)

lemma slot_by_id_clearAllErrors [dom_simps]:
  "slot_by_id i (clearAllErrors d) = map_option (\<lambda>s. if smsg s then s\<lparr>stext := []\<rparr> else s) (slot_by_id i d)"
  by (simp add: slot_by_id_def clearAllErrors_def find_map_eq comp_def option.map_comp)

lemma err_id_inj [simp]: "err_id n = err_id m \<longleftrightarrow> n = m"
  by (simp add: err_id_def)

lemma slot_text_present:
  "map_option stext (slot_by_id (err_id n) (present ms d)) =
     map_option (\<lambda>s. case map_of (rev ms) n of None \<Rightarrow> stext s | Some m \<Rightarrow> m) (slot_by_id (err_id n) d)"
proof (induction ms arbitrary: d rule: rev_induct)
  case Nil
  then show ?case by (cases "slot_by_id (err_id n) d") auto
next
  case (snoc x ms)
  obtain k m where x: "x = (k, m)" by fastforce
  show ?case
    using snoc [of d] unfolding x
    by (cases "slot_by_id (err_id n) d")
       (auto simp: present_append slot_by_id_showError option.map_comp comp_def)
qed

end
