(* ===== verification/Validator.thy ===== *)
theory Validator
  imports Dom
begin

text \<open>
  The Validator of src/script.js: \<open>isValidEmail\<close> (lines 192--195) and
  \<open>validateForm\<close> (lines 143--189).  The regular expression
  \<open>/^[^\s@]+@[^\s@]+\.[^\s@]+$/\<close> is written as a list of atoms (a literal code unit,
  or a character class under \<open>+\<close>) and \<open>re_match\<close> is the backtracking matcher of an
  anchored pattern made of such atoms.  \<open>validateForm\<close> is a loop over
  \<open>requiredFields\<close> whose body reads the DOM, calls \<open>showError\<close> and may throw; it is
  modelled as a fold in the exception-and-state result type \<open>dom_result\<close>.
\<close>

subsection \<open>The e-mail pattern\<close>

datatype re_atom = Lit "16 word" | Plus "16 word \<Rightarrow> bool"

fun re_match :: "re_atom list \<Rightarrow> jsstring \<Rightarrow> bool" where
  "re_match [] s \<longleftrightarrow> s = []"
| "re_match (Lit c # rs) s \<longleftrightarrow> (case s of [] \<Rightarrow> False | x # xs \<Rightarrow> x = c \<and> re_match rs xs)"
| "re_match (Plus P # rs) s \<longleftrightarrow>
     (case s of [] \<Rightarrow> False
      | x # xs \<Rightarrow> P x \<and> (re_match (Plus P # rs) xs \<or> re_match rs xs))"

text \<open>The class \<open>[^\s@]\<close>.\<close>

definition not_ws_at :: "16 word \<Rightarrow> bool" where
  "not_ws_at c \<longleftrightarrow> \<not> js_is_ws c \<and> c \<noteq> 0x40"

definition emailRegex :: "re_atom list" where
  "emailRegex = [Plus not_ws_at, Lit 0x40, Plus not_ws_at, Lit 0x2E, Plus not_ws_at]"

definition isValidEmail :: "jsstring \<Rightarrow> bool" where
  "isValidEmail email \<longleftrightarrow> re_match emailRegex email"

subsection \<open>Messages\<close>

text \<open>The messages of lines 156--184; non-ASCII letters are their UTF-16 code units.\<close>

definition msg_gender :: jsstring where
  "msg_gender = js_str ''Selecione um g'' @ [0xEA] @ js_str ''nero''"

definition msg_terms :: jsstring where
  "msg_terms = js_str ''Voc'' @ [0xEA] @ js_str '' deve aceitar os termos e condi'' @ [0xE7, 0xF5] @ js_str ''es''"

definition msg_pw_required :: jsstring where
  "msg_pw_required = js_str ''Senha '' @ [0xE9] @ js_str '' obrigat'' @ [0xF3] @ js_str ''ria''"

definition msg_pw_length :: jsstring where
  "msg_pw_length = js_str ''A senha deve ter exatamente 8 caracteres''"

definition msg_required :: "jsstring \<Rightarrow> jsstring" where
  "msg_required fieldLabel = fieldLabel @ js_str '' '' @ [0xE9] @ js_str '' obrigat'' @ [0xF3] @ js_str ''rio''"

definition msg_email :: jsstring where
  "msg_email = js_str ''Digite um e-mail v'' @ [0xE1] @ js_str ''lido''"

subsection \<open>validateForm\<close>

text \<open>
  One iteration of \<open>requiredFields.forEach\<close> (lines 151--178).  \<open>field\<close> is
  \<open>null\<close> when no element has the name; reading \<open>field.checked\<close>,
  \<open>field.value\<close> or the \<open>textContent\<close> of a missing label then throws.
\<close>

definition validate_field :: "string \<Rightarrow> bool \<Rightarrow> doc \<Rightarrow> bool dom_result" where
  "validate_field fieldName isValid d =
     (let field = query_name fieldName d in
      if fieldName = ''gender'' then
        (if \<not> list_ex (\<lambda>c. cname c = ''gender'' \<and> is_checkable c \<and> cchecked c) (controls d)
         then Inr (False, showError ''gender'' msg_gender d) else Inr (isValid, d))
      else if fieldName = ''acceptTerms'' then
        (case field of None \<Rightarrow> Inl (TypeError, d)
         | Some f \<Rightarrow> if \<not> cchecked f then Inr (False, showError ''acceptTerms'' msg_terms d)
                     else Inr (isValid, d))
      else if fieldName = ''password'' then
        (case field of None \<Rightarrow> Inl (TypeError, d)
         | Some f \<Rightarrow>
             if js_trim (cvalue f) = [] then Inr (False, showError ''password'' msg_pw_required d)
             else if length (cvalue f) \<noteq> 8 then Inr (False, showError ''password'' msg_pw_length d)
             else Inr (isValid, d))
      else
        (case field of None \<Rightarrow> Inl (TypeError, d)
         | Some f \<Rightarrow>
             if js_trim (cvalue f) = [] then
               (case label_text fieldName d of None \<Rightarrow> Inl (TypeError, d)
                | Some t \<Rightarrow>
                    let fieldLabel = js_replace_first (js_str '' *'') [] t
                    in Inr (False, showError fieldName (msg_required fieldLabel) d))
             else Inr (isValid, d)))"

text \<open>The \<open>forEach\<close> loop: an exception leaves the loop and the function.\<close>

fun validate_fields :: "string list \<Rightarrow> bool \<Rightarrow> doc \<Rightarrow> bool dom_result" where
  "validate_fields [] isValid d = Inr (isValid, d)"
| "validate_fields (n # ns) isValid d =
     (case validate_field n isValid d of
        Inl e \<Rightarrow> Inl e
      | Inr (isValid', d') \<Rightarrow> validate_fields ns isValid' d')"

text \<open>\<open>validateForm()\<close>: clear, check the required fields, then the e-mail format.\<close>

definition validateForm :: "doc \<Rightarrow> bool dom_result" where
  "validateForm d =
     (case validate_fields requiredFields True (clearAllErrors d) of
        Inl e \<Rightarrow> Inl e
      | Inr (isValid, d1) \<Rightarrow>
          (case control_by_id ''email'' d1 of
             None \<Rightarrow> Inl (TypeError, d1)
           | Some email \<Rightarrow>
               if cvalue email \<noteq> [] \<and> \<not> isValidEmail (cvalue email)
               then Inr (False, showError ''email'' msg_email d1)
               else Inr (isValid, d1)))"

subsection \<open>The pure validation the code interleaves with presentation\<close>

text \<open>
  The same rules without the DOM writes: for one field, the message it fails with
  (\<open>None\<close> when it passes) or the \<open>TypeError\<close> its lookup throws; for the form, the
  list of (field, message) pairs in the order the code shows them, and the error that
  stopped the loop, if any.
\<close>

definition gender_checked :: "doc \<Rightarrow> bool" where
  "gender_checked d \<longleftrightarrow> list_ex (\<lambda>c. cname c = ''gender'' \<and> is_checkable c \<and> cchecked c) (controls d)"

definition field_message :: "string \<Rightarrow> doc \<Rightarrow> js_error + jsstring option" where
  "field_message n d =
     (if n = ''gender'' then Inr (if gender_checked d then None else Some msg_gender)
      else case query_name n d of
        None \<Rightarrow> Inl TypeError
      | Some f \<Rightarrow>
          if n = ''acceptTerms'' then Inr (if cchecked f then None else Some msg_terms)
          else if n = ''password'' then
            Inr (if js_trim (cvalue f) = [] then Some msg_pw_required
                 else if length (cvalue f) \<noteq> 8 then Some msg_pw_length else None)
          else if js_trim (cvalue f) = [] then
            (case label_text n d of None \<Rightarrow> Inl TypeError
             | Some t \<Rightarrow> Inr (Some (msg_required (js_replace_first (js_str '' *'') [] t))))
          else Inr None)"

fun field_messages :: "string list \<Rightarrow> doc \<Rightarrow> (string \<times> jsstring) list \<times> js_error option" where
  "field_messages [] d = ([], None)"
| "field_messages (n # ns) d =
     (case field_message n d of
        Inl e \<Rightarrow> ([], Some e)
      | Inr None \<Rightarrow> field_messages ns d
      | Inr (Some m) \<Rightarrow> (case field_messages ns d of (ms, e) \<Rightarrow> ((n, m) # ms, e)))"

definition email_message :: "doc \<Rightarrow> js_error + jsstring option" where
  "email_message d =
     (case control_by_id ''email'' d of
        None \<Rightarrow> Inl TypeError
      | Some em \<Rightarrow> Inr (if cvalue em \<noteq> [] \<and> \<not> isValidEmail (cvalue em) then Some msg_email else None))"

definition validation_errors :: "doc \<Rightarrow> (string \<times> jsstring) list \<times> js_error option" where
  "validation_errors d =
     (case field_messages requiredFields d of
        (ms, Some e) \<Rightarrow> (ms, Some e)
      | (ms, None) \<Rightarrow>
          (case email_message d of
             Inl e \<Rightarrow> (ms, Some e)
           | Inr None \<Rightarrow> (ms, None)
           | Inr (Some m) \<Rightarrow> (ms @ [(''email'', m)], None)))"

subsection \<open>Reading the rules off the page\<close>

text \<open>
  \<open>wf_required\<close> says that every lookup \<open>validateForm\<close> dereferences finds its element:
  a control for each required field but \<open>gender\<close>, a label for each text field, and an
  element with id \<open>email\<close>.  \<open>value_of\<close>, \<open>checked_of\<close> and \<open>email_value\<close> read
  the control the code reads.
\<close>

definition wf_required :: "doc \<Rightarrow> bool" where
  "wf_required d \<longleftrightarrow>
     list_all (\<lambda>n. n = ''gender'' \<or> query_name n d \<noteq> None) requiredFields \<and>
     list_all (\<lambda>n. label_text n d \<noteq> None) [''fullName'', ''email'', ''phone'', ''birthDate''] \<and>
     control_by_id ''email'' d \<noteq> None"

definition value_of :: "string \<Rightarrow> doc \<Rightarrow> jsstring" where
  "value_of n d = (case query_name n d of Some c \<Rightarrow> cvalue c | None \<Rightarrow> [])"

definition checked_of :: "string \<Rightarrow> doc \<Rightarrow> bool" where
  "checked_of n d = (case query_name n d of Some c \<Rightarrow> cchecked c | None \<Rightarrow> False)"

definition email_value :: "doc \<Rightarrow> jsstring" where
  "email_value d = (case control_by_id ''email'' d of Some c \<Rightarrow> cvalue c | None \<Rightarrow> [])"

subsection \<open>What the matcher accepts\<close>

lemma re_match_Lit [js_simps]:
  "re_match (Lit c # rs) s \<longleftrightarrow> (\<exists>r. s = c # r \<and> re_match rs r)"
  by (cases s) auto

lemma re_match_Plus [js_simps]:
  "re_match (Plus P # rs) s \<longleftrightarrow>
     (\<exists>a r. s = a @ r \<and> a \<noteq> [] \<and> list_all P a \<and> re_match rs r)"
proof (induction s)
  case Nil
  then show ?case by simp
next
  case (Cons x xs)
  show ?case
  proof
    assume "re_match (Plus P # rs) (x # xs)"
    then have px: "P x" and alt: "re_match (Plus P # rs) xs \<or> re_match rs xs" by simp_all
    from alt show "\<exists>a r. x # xs = a @ r \<and> a \<noteq> [] \<and> list_all P a \<and> re_match rs r"
    proof
      assume "re_match (Plus P # rs) xs"
      with Cons.IH obtain a r where "xs = a @ r" "list_all P a" "re_match rs r" by blast
      with px show ?thesis by (intro exI [of _ "x # a"] exI [of _ r]) simp
    next
      assume "re_match rs xs"
      with px show ?thesis by (intro exI [of _ "[x]"] exI [of _ xs]) simp
    qed
  next
    assume "\<exists>a r. x # xs = a @ r \<and> a \<noteq> [] \<and> list_all P a \<and> re_match rs r"
    then obtain a r where eq: "x # xs = a @ r" and ne: "a \<noteq> []" and pa: "list_all P a"
      and rr: "re_match rs r" by blast
    from ne obtain a' where a: "a = x # a'" and xs: "xs = a' @ r"
      using eq by (cases a) auto
    show "re_match (Plus P # rs) (x # xs)"
    proof (cases "a' = []")
      case True
      with a pa rr xs show ?thesis by simp
    next
      case False
      with a pa rr xs Cons.IH show ?thesis by auto
    qed
  qed
qed

text \<open>
  C4.  The e-mail pattern accepts exactly the strings
  \<open>a @ b . c\<close> with \<open>a\<close>, \<open>b\<close>, \<open>c\<close> non-empty and free of white space and
  \<open>@\<close> (\<open>b\<close> and \<open>c\<close> may contain further dots).
\<close>

theorem isValidEmail_iff:
  "isValidEmail s \<longleftrightarrow>
     (\<exists>a b c. s = a @ 0x40 # b @ 0x2E # c \<and> a \<noteq> [] \<and> b \<noteq> [] \<and> c \<noteq> [] \<and>
        list_all not_ws_at a \<and> list_all not_ws_at b \<and> list_all not_ws_at c)"
  (is "_ \<longleftrightarrow> ?R")
proof
  assume "isValidEmail s"
  then show ?R
    unfolding isValidEmail_def emailRegex_def re_match_Plus re_match_Lit re_match.simps(1)
    by auto
next
  assume ?R
  then obtain a b c where s: "s = a @ 0x40 # b @ 0x2E # c" and ne: "a \<noteq> []" "b \<noteq> []" "c \<noteq> []"
    and cl: "list_all not_ws_at a" "list_all not_ws_at b" "list_all not_ws_at c"
    by blast
  have "re_match [Plus not_ws_at] c"
    using ne cl by (simp only: re_match_Plus re_match.simps(1)) auto
  then have "re_match [Plus not_ws_at, Lit 0x40, Plus not_ws_at, Lit 0x2E, Plus not_ws_at] s"
    unfolding s re_match_Plus re_match_Lit
    using ne cl by (intro exI [of _ a] exI [of _ "0x40 # b @ 0x2E # c"] exI [of _ b] exI [of _ "0x2E # c"]) auto
  then show "isValidEmail s"
    by (simp only: isValidEmail_def emailRegex_def)
qed

subsection \<open>The code validates as the pure rules say\<close>

lemma erase_eq_D: "erase a = erase b \<Longrightarrow> cvalue a = cvalue b \<and> cchecked a = cchecked b"
  by (metis erase_sel(4,5))

lemma gender_checked_view: "form_view d = form_view d' \<Longrightarrow> gender_checked d = gender_checked d'"
  unfolding gender_checked_def by (rule list_ex_controls_view) (simp_all add: is_checkable_def)

lemma field_message_view:
  assumes v: "form_view d = form_view d'"
  shows "field_message n d = field_message n d'"
proof -
  have q: "map_option erase (query_name n d) = map_option erase (query_name n d')"
    using v by (rule query_name_view)
  have l: "label_text n d = label_text n d'"
    using v by (rule label_text_view)
  have g: "gender_checked d = gender_checked d'"
    using v by (rule gender_checked_view)
  show ?thesis
  proof (cases "query_name n d")
    case None
    with q l g show ?thesis by (simp add: field_message_def)
  next
    case (Some a)
    with q obtain b where b: "query_name n d' = Some b" and "erase a = erase b"
      by (cases "query_name n d'") auto
    then have "cvalue a = cvalue b" "cchecked a = cchecked b" by (auto dest: erase_eq_D)
    with Some b l g show ?thesis by (simp add: field_message_def)
  qed
qed

lemma email_message_view:
  assumes v: "form_view d = form_view d'"
  shows "email_message d = email_message d'"
proof -
  have q: "map_option erase (control_by_id ''email'' d) = map_option erase (control_by_id ''email'' d')"
    using v by (rule control_by_id_view)
  show ?thesis
  proof (cases "control_by_id ''email'' d")
    case None
    with q show ?thesis by (simp add: email_message_def)
  next
    case (Some a)
    with q obtain b where b: "control_by_id ''email'' d' = Some b" and "erase a = erase b"
      by (cases "control_by_id ''email'' d'") auto
    then have "cvalue a = cvalue b" by (auto dest: erase_eq_D)
    with Some b show ?thesis by (simp add: email_message_def)
  qed
qed

lemma validate_field_eq:
  "validate_field n ok d =
     (case field_message n d of
        Inl e \<Rightarrow> Inl (e, d)
      | Inr None \<Rightarrow> Inr (ok, d)
      | Inr (Some m) \<Rightarrow> Inr (False, showError n m d))"
  by (auto simp: validate_field_def field_message_def gender_checked_def Let_def split: option.splits)

lemma validate_fields_eq:
  "form_view d = form_view d0 \<Longrightarrow>
   validate_fields ns ok d =
     (case field_messages ns d0 of
        (ms, Some e) \<Rightarrow> Inl (e, present ms d)
      | (ms, None) \<Rightarrow> Inr (ok \<and> ms = [], present ms d))"
proof (induction ns arbitrary: ok d)
  case Nil
  then show ?case by simp
next
  case (Cons n ns)
  have fm: "field_message n d = field_message n d0"
    using Cons.prems by (rule field_message_view)
  show ?case
  proof (cases "field_message n d0")
    case (Inl e)
    with fm show ?thesis by (simp add: validate_field_eq)
  next
    case (Inr r)
    show ?thesis
    proof (cases r)
      case None
      with Inr fm Cons.IH [OF Cons.prems] show ?thesis by (simp add: validate_field_eq)
    next
      case (Some m)
      have "form_view (showError n m d) = form_view d0"
        using Cons.prems by (simp add: form_view_showError)
      note IH = Cons.IH [OF this, of False]
      with Inr Some fm show ?thesis
        by (simp add: validate_field_eq split: prod.splits option.splits)
    qed
  qed
qed

lemma email_step_eq:
  "(case control_by_id ''email'' d1 of
      None \<Rightarrow> Inl (TypeError, d1)
    | Some email \<Rightarrow>
        if cvalue email \<noteq> [] \<and> \<not> isValidEmail (cvalue email)
        then Inr (False, showError ''email'' msg_email d1) else Inr (ok, d1)) =
   (case email_message d1 of
      Inl e \<Rightarrow> Inl (e, d1)
    | Inr None \<Rightarrow> Inr (ok, d1)
    | Inr (Some m) \<Rightarrow> Inr (False, showError ''email'' m d1))"
  by (auto simp: email_message_def split: option.splits)

text \<open>
  C2.  Refinement of the design the spec recommends (a pure validation function and a
  presentation layer that consumes its result): on every document, \<open>validateForm\<close>
  clears all errors, shows the messages of the pure validation \<open>validation_errors\<close> in
  order, and returns \<open>true\<close> exactly when there is none; when a lookup throws, the
  messages shown before the throw stay on the page.
\<close>

theorem validateForm_refines:
  "validateForm d =
     (case validation_errors d of
        (ms, Some e) \<Rightarrow> Inl (e, present ms (clearAllErrors d))
      | (ms, None) \<Rightarrow> Inr (ms = [], present ms (clearAllErrors d)))"
proof -
  let ?d0 = "clearAllErrors d"
  have v: "form_view ?d0 = form_view d" by (rule form_view_clearAllErrors)
  obtain ms e where fm: "field_messages requiredFields d = (ms, e)"
    by (cases "field_messages requiredFields d")
  show ?thesis
  proof (cases e)
    case (Some e')
    then have "validate_fields requiredFields True ?d0 = Inl (e', present ms ?d0)"
      using validate_fields_eq [OF v, of requiredFields True] fm by simp
    with Some fm show ?thesis
      by (simp add: validateForm_def validation_errors_def)
  next
    case None
    then have loop: "validate_fields requiredFields True ?d0 = Inr (ms = [], present ms ?d0)"
      using validate_fields_eq [OF v, of requiredFields True] fm by simp
    have em: "email_message (present ms ?d0) = email_message d"
      using v by (intro email_message_view) (simp add: form_view_present)
    have "validateForm d =
       (case email_message d of
          Inl e \<Rightarrow> Inl (e, present ms ?d0)
        | Inr None \<Rightarrow> Inr (ms = [], present ms ?d0)
        | Inr (Some m) \<Rightarrow> Inr (False, showError ''email'' m (present ms ?d0)))"
      by (simp only: validateForm_def loop sum.case prod.case email_step_eq em)
    with None fm show ?thesis
      by (simp add: validation_errors_def present_append split: sum.splits option.splits)
  qed
qed

lemma field_messages_no_error:
  "list_all (\<lambda>n. \<forall>e. field_message n d \<noteq> Inl e) ns \<Longrightarrow> snd (field_messages ns d) = None"
  by (induction ns) (auto split: sum.splits option.splits prod.splits)

lemma field_messages_nil_iff:
  "snd (field_messages ns d) = None \<Longrightarrow>
   fst (field_messages ns d) = [] \<longleftrightarrow> list_all (\<lambda>n. field_message n d = Inr None) ns"
  by (induction ns) (auto split: sum.splits option.splits prod.splits)

lemma field_message_no_error:
  "n = ''gender'' \<or> query_name n d \<noteq> None \<Longrightarrow>
   n = ''gender'' \<or> n = ''acceptTerms'' \<or> n = ''password'' \<or> label_text n d \<noteq> None \<Longrightarrow>
   field_message n d \<noteq> Inl e"
  by (auto simp: field_message_def split: option.splits)

lemma wf_field_message_no_error:
  "wf_required d \<Longrightarrow> list_all (\<lambda>n. \<forall>e. field_message n d \<noteq> Inl e) requiredFields"
  unfolding wf_required_def requiredFields_def by (simp add: field_message_no_error)

lemma wf_email_message: "wf_required d \<Longrightarrow> email_message d \<noteq> Inl e"
  by (auto simp: wf_required_def email_message_def)

lemma validateForm_wf:
  assumes "wf_required d"
  shows "validateForm d =
           Inr (fst (validation_errors d) = [], present (fst (validation_errors d)) (clearAllErrors d))"
proof -
  let ?d0 = "clearAllErrors d"
  have v: "form_view ?d0 = form_view d" by (rule form_view_clearAllErrors)
  obtain ms where fm: "field_messages requiredFields d = (ms, None)"
    using field_messages_no_error [OF wf_field_message_no_error [OF assms]]
    by (cases "field_messages requiredFields d") auto
  have loop: "validate_fields requiredFields True ?d0 = Inr (ms = [], present ms ?d0)"
    using validate_fields_eq [OF v, of requiredFields True] fm by simp
  have em: "email_message (present ms ?d0) = email_message d"
    using v by (intro email_message_view) (simp add: form_view_present)
  obtain r where r: "email_message d = Inr r"
    using wf_email_message [OF assms] by (cases "email_message d") auto
  show ?thesis
    using loop em fm r unfolding validateForm_def validation_errors_def email_step_eq
    by (cases r) (auto simp: present_append)
qed

lemma validation_errors_nil_iff:
  assumes "wf_required d"
  shows "fst (validation_errors d) = [] \<longleftrightarrow>
           list_all (\<lambda>n. field_message n d = Inr None) requiredFields \<and> email_message d = Inr None"
proof -
  obtain ms where fm: "field_messages requiredFields d = (ms, None)"
    using field_messages_no_error [OF wf_field_message_no_error [OF assms]]
    by (cases "field_messages requiredFields d") auto
  obtain r where r: "email_message d = Inr r"
    using wf_email_message [OF assms] by (cases "email_message d") auto
  show ?thesis
    using field_messages_nil_iff [of requiredFields d] fm r
    by (cases r) (auto simp: validation_errors_def)
qed

lemma field_message_gender_ok: "field_message ''gender'' d = Inr None \<longleftrightarrow> gender_checked d"
  by (simp add: field_message_def)

lemma field_message_terms_ok:
  "query_name ''acceptTerms'' d \<noteq> None \<Longrightarrow>
   field_message ''acceptTerms'' d = Inr None \<longleftrightarrow> checked_of ''acceptTerms'' d"
  by (auto simp: field_message_def checked_of_def split: if_splits)

lemma field_message_password_ok:
  "query_name ''password'' d \<noteq> None \<Longrightarrow>
   field_message ''password'' d = Inr None \<longleftrightarrow>
     \<not> list_all js_is_ws (value_of ''password'' d) \<and> length (value_of ''password'' d) = 8"
  by (auto simp: field_message_def value_of_def js_trim_empty_iff split: if_splits)

lemma field_message_text_ok:
  "n \<noteq> ''gender'' \<Longrightarrow> n \<noteq> ''acceptTerms'' \<Longrightarrow> n \<noteq> ''password'' \<Longrightarrow>
   query_name n d \<noteq> None \<Longrightarrow> label_text n d \<noteq> None \<Longrightarrow>
   field_message n d = Inr None \<longleftrightarrow> \<not> list_all js_is_ws (value_of n d)"
  by (auto simp: field_message_def value_of_def js_trim_empty_iff split: option.splits)

lemma email_message_ok:
  "control_by_id ''email'' d \<noteq> None \<Longrightarrow>
   email_message d = Inr None \<longleftrightarrow> email_value d = [] \<or> isValidEmail (email_value d)"
  by (auto simp: email_message_def email_value_def split: if_splits)

text \<open>
  C1.  On a page where every element the validator looks up exists, \<open>validateForm\<close>
  returns normally, and it returns \<open>true\<close> exactly when full name, e-mail, phone and
  birth date are not blank, a gender is checked, the terms are accepted, the password is
  not blank and has exactly 8 code units, and the e-mail is empty or matches the pattern.
\<close>

theorem validateForm_accepts_iff:
  assumes "wf_required d"
  shows "\<exists>d'. validateForm d =
           Inr (list_all (\<lambda>n. \<not> list_all js_is_ws (value_of n d)) [''fullName'', ''email'', ''phone'', ''birthDate'']
                \<and> gender_checked d \<and> checked_of ''acceptTerms'' d
                \<and> \<not> list_all js_is_ws (value_of ''password'' d) \<and> length (value_of ''password'' d) = 8
                \<and> (email_value d = [] \<or> isValidEmail (email_value d)), d')"
proof -
  have "list_all (\<lambda>n. field_message n d = Inr None) requiredFields \<and> email_message d = Inr None \<longleftrightarrow>
        list_all (\<lambda>n. \<not> list_all js_is_ws (value_of n d)) [''fullName'', ''email'', ''phone'', ''birthDate'']
                \<and> gender_checked d \<and> checked_of ''acceptTerms'' d
                \<and> \<not> list_all js_is_ws (value_of ''password'' d) \<and> length (value_of ''password'' d) = 8
                \<and> (email_value d = [] \<or> isValidEmail (email_value d))"
    using assms unfolding wf_required_def requiredFields_def
    by (simp add: field_message_gender_ok field_message_terms_ok field_message_password_ok
        field_message_text_ok email_message_ok) blast
  with validateForm_wf [OF assms] validation_errors_nil_iff [OF assms] show ?thesis
    by auto
qed

lemma Inr_Some_iff: "(\<forall>m. Inr r \<noteq> Inr (Some m)) \<longleftrightarrow> r = None"
  by (cases r) auto

lemma set_field_messages:
  "snd (field_messages ns d) = None \<Longrightarrow>
   (n, m) \<in> set (fst (field_messages ns d)) \<longleftrightarrow> n \<in> set ns \<and> field_message n d = Inr (Some m)"
  by (induction ns) (auto split: sum.splits option.splits prod.splits)

lemma messages_nonempty:
  "msg_gender \<noteq> []" "msg_terms \<noteq> []" "msg_pw_required \<noteq> []" "msg_pw_length \<noteq> []"
  "msg_required t \<noteq> []" "msg_email \<noteq> []"
  by (simp_all add: msg_gender_def msg_terms_def msg_pw_required_def msg_pw_length_def
      msg_required_def msg_email_def)

lemma field_message_nonempty: "field_message n d = Inr (Some m) \<Longrightarrow> m \<noteq> []"
  unfolding field_message_def
  by (auto simp: messages_nonempty split: if_splits option.splits)

lemma email_message_nonempty: "email_message d = Inr (Some m) \<Longrightarrow> m \<noteq> []"
  by (auto simp: email_message_def messages_nonempty split: if_splits option.splits)

lemma validation_errors_wf_set:
  assumes "wf_required d"
  shows "(n, m) \<in> set (fst (validation_errors d)) \<longleftrightarrow>
           (n \<in> set requiredFields \<and> field_message n d = Inr (Some m)) \<or>
           (n = ''email'' \<and> email_message d = Inr (Some m))"
proof -
  obtain ms where fm: "field_messages requiredFields d = (ms, None)"
    using field_messages_no_error [OF wf_field_message_no_error [OF assms]]
    by (cases "field_messages requiredFields d") auto
  obtain r where r: "email_message d = Inr r"
    using wf_email_message [OF assms] by (cases "email_message d") auto
  have ve: "fst (validation_errors d) = ms @ (case r of None \<Rightarrow> [] | Some m \<Rightarrow> [(''email'', m)])"
    using fm r by (cases r) (simp_all add: validation_errors_def)
  have inms: "(n, m) \<in> set ms \<longleftrightarrow> n \<in> set requiredFields \<and> field_message n d = Inr (Some m)"
    using set_field_messages [of requiredFields d n m] fm by simp
  show ?thesis
    unfolding ve using inms r by (cases r) auto
qed

text \<open>
  C3.  After validation the error slot of a field (one of class \<open>error-message\<close>) is
  empty exactly when the field passes every rule that applies to it: failing fields are
  marked and no other field is.
\<close>

theorem validateForm_marks_exactly:
  assumes wf: "wf_required d" and sl: "slot_by_id (err_id n) d = Some s" and cls: "smsg s"
  shows "\<exists>d' t. validateForm d = Inr (fst (validation_errors d) = [], d') \<and>
           slot_by_id (err_id n) d' = Some t \<and>
           (stext t = [] \<longleftrightarrow>
              (n \<in> set requiredFields \<longrightarrow> field_message n d = Inr None) \<and>
              (n = ''email'' \<longrightarrow> email_message d = Inr None))"
proof -
  let ?ms = "fst (validation_errors d)"
  let ?dv = "present ?ms (clearAllErrors d)"
  have stx: "map_option stext (slot_by_id (err_id n) ?dv) =
               Some (case map_of (rev ?ms) n of None \<Rightarrow> [] | Some m \<Rightarrow> m)"
    using slot_text_present [of n ?ms "clearAllErrors d"] sl cls
    by (simp add: slot_by_id_clearAllErrors cong: option.case_cong)
  then obtain t where t: "slot_by_id (err_id n) ?dv = Some t"
    and tt: "stext t = (case map_of (rev ?ms) n of None \<Rightarrow> [] | Some m \<Rightarrow> m)"
    by (cases "slot_by_id (err_id n) ?dv") auto
  have ne: "m \<noteq> []" if "(n, m) \<in> set ?ms" for m
  proof -
    from that have "field_message n d = Inr (Some m) \<or> email_message d = Inr (Some m)"
      using validation_errors_wf_set [OF wf, of n m] by simp blast
    then show ?thesis using field_message_nonempty email_message_nonempty by blast
  qed
  have "stext t = [] \<longleftrightarrow> (\<forall>m. (n, m) \<notin> set ?ms)"
  proof (cases "map_of (rev ?ms) n")
    case None
    then have "stext t = []" using tt by simp
    moreover have "\<forall>m. (n, m) \<notin> set ?ms"
      using None by (force simp: map_of_eq_None_iff)
    ultimately show ?thesis by simp
  next
    case (Some m)
    then have "(n, m) \<in> set ?ms" using map_of_SomeD by fastforce
    then show ?thesis using tt Some ne by auto
  qed
  also have "\<dots> \<longleftrightarrow> (n \<in> set requiredFields \<longrightarrow> field_message n d = Inr None) \<and>
              (n = ''email'' \<longrightarrow> email_message d = Inr None)"
  proof -
    have fr: "(\<forall>m. field_message n d \<noteq> Inr (Some m)) \<longleftrightarrow> field_message n d = Inr None"
      if "n \<in> set requiredFields"
      using wf_field_message_no_error [OF wf] that
      by (cases "field_message n d") (auto simp: list_all_iff Inr_Some_iff)
    have er: "(\<forall>m. email_message d \<noteq> Inr (Some m)) \<longleftrightarrow> email_message d = Inr None"
      using wf_email_message [OF wf] by (cases "email_message d") (auto simp: Inr_Some_iff)
    show ?thesis
      using validation_errors_wf_set [OF wf, of n] fr er by blast
  qed
  finally have "stext t = [] \<longleftrightarrow> (n \<in> set requiredFields \<longrightarrow> field_message n d = Inr None) \<and>
              (n = ''email'' \<longrightarrow> email_message d = Inr None)" .
  then show ?thesis
    using validateForm_wf [OF wf] t by (intro exI [of _ ?dv] exI [of _ t]) simp
qed

end
