(* ===== verification/FileGuard.thy ===== *)
theory FileGuard
  imports Dom
begin

text \<open>
  The File Guard of src/script.js: the \<open>change\<close> listener that \<open>setupFileUpload\<close>
  (lines 39--63) puts on the upload control \<open>fileInput\<close> (the element with id
  \<open>resume\<close>).  It reads the first selected file; a file whose MIME type is not
  \<open>application/pdf\<close>, or that is larger than \<open>5 * 1024 * 1024\<close> bytes, gets an
  error and the selection is cleared (\<open>fileInput.value = ""\<close>); an accepted file's name
  is shown in the upload display; no file restores the placeholder.  When there is no
  element with id \<open>resume\<close>, \<open>setupFileUpload\<close> throws at start-up and no listener
  exists, so the page is left as it is.
\<close>

definition upload_placeholder :: jsstring where
  "upload_placeholder =
     js_str ''Clique para selecionar ou arraste seu curr'' @ [0xED] @ js_str ''culo em PDF''"

definition msg_pdf_only :: jsstring where
  "msg_pdf_only = js_str ''Apenas arquivos PDF s'' @ [0xE3] @ js_str ''o aceitos''"

definition msg_max_size :: jsstring where
  "msg_max_size = js_str ''O arquivo deve ter no m'' @ [0xE1] @ js_str ''ximo 5MB''"

definition pdf_icon_html :: jsstring where
  "pdf_icon_html = js_str ''<i class=\"fas fa-file-pdf\"></i> ''"

definition max_upload_size :: nat where
  "max_upload_size = 5 * 1024 * 1024"

text \<open>Setting the selection of the control with a given id (\<open>fileInput.value = ""\<close>
  clears it; the browser sets it when the user picks files).\<close>

definition set_files_by_id :: "string \<Rightarrow> jsfile list \<Rightarrow> doc \<Rightarrow> doc" where
  "set_files_by_id i fs d =
     d\<lparr>controls := upd_first (\<lambda>c. cid c = i) (\<lambda>c. c\<lparr>cfiles := fs\<rparr>) (controls d)\<rparr>"

definition resume_change :: "doc \<Rightarrow> doc" where
  "resume_change d =
     (case control_by_id ''resume'' d of
        None \<Rightarrow> d
      | Some fileInput \<Rightarrow>
          (case cfiles fileInput of
             [] \<Rightarrow> d\<lparr>file_display := upload_placeholder\<rparr>
           | file # _ \<Rightarrow>
               if fmime file \<noteq> ''application/pdf'' then
                 set_files_by_id ''resume'' [] (showError ''resume'' msg_pdf_only d)
               else if fsize file > 5 * 1024 * 1024 then
                 set_files_by_id ''resume'' [] (showError ''resume'' msg_max_size d)
               else clearError ''resume'' (d\<lparr>file_display := pdf_icon_html @ fname file\<rparr>)))"

text \<open>The user picks the files \<open>fs\<close> (possibly none) and the listener runs.\<close>

definition choose_resume :: "jsfile list \<Rightarrow> doc \<Rightarrow> doc" where
  "choose_resume fs d = resume_change (set_files_by_id ''resume'' fs d)"

subsection \<open>The contract of the spec\<close>

text \<open>The four outcomes the spec names (section 4.3), decided on the selection.\<close>

datatype upload_outcome = Accepted | RejectedType | RejectedSize | Cleared

definition upload_verdict :: "jsfile list \<Rightarrow> upload_outcome" where
  "upload_verdict fs =
     (case fs of [] \<Rightarrow> Cleared
      | f # _ \<Rightarrow> if fmime f \<noteq> ''application/pdf'' then RejectedType
                 else if max_upload_size < fsize f then RejectedSize else Accepted)"

definition resume_files :: "doc \<Rightarrow> jsfile list" where
  "resume_files d = (case control_by_id ''resume'' d of Some c \<Rightarrow> cfiles c | None \<Rightarrow> [])"

definition slot_text :: "string \<Rightarrow> doc \<Rightarrow> jsstring option" where
  "slot_text n d = map_option stext (slot_by_id (err_id n) d)"

subsection \<open>Frame lemmas\<close>

lemma control_by_id_set_files [dom_simps]:
  "control_by_id i (set_files_by_id i fs d) = map_option (\<lambda>c. c\<lparr>cfiles := fs\<rparr>) (control_by_id i d)"
  by (simp add: control_by_id_def set_files_by_id_def find_upd_first_same)

lemma set_files_by_id_sel [simp]:
  "slots (set_files_by_id i fs d) = slots d"
  "file_display (set_files_by_id i fs d) = file_display d"
  by (simp_all add: set_files_by_id_def)

lemma slot_by_id_set_files [dom_simps]: "slot_by_id j (set_files_by_id i fs d) = slot_by_id j d"
  by (simp add: slot_by_id_def)

lemma presenter_display [simp]:
  "file_display (showError n m d) = file_display d"
  "file_display (clearError n d) = file_display d"
  by (simp_all add: showError_def clearError_def set_field_error_def set_slot_text_def)

lemma cfiles_view:
  "form_view d = form_view d' \<Longrightarrow> map_option cfiles (control_by_id i d) = map_option cfiles (control_by_id i d')"
  using control_by_id_view [of d d' i]
  by (metis (no_types, lifting) erase_sel(7) option.map_comp comp_apply option.map_cong0)

lemma resume_files_presenter [simp]:
  "resume_files (showError n m d) = resume_files d"
  "resume_files (clearError n d) = resume_files d"
  "resume_files (d\<lparr>file_display := x\<rparr>) = resume_files d"
proof -
  show "resume_files (showError n m d) = resume_files d"
    using cfiles_view [of "showError n m d" d "''resume''"] form_view_showError [of n m d]
    by (cases "control_by_id ''resume'' d"; cases "control_by_id ''resume'' (showError n m d)")
       (auto simp: resume_files_def)
  show "resume_files (clearError n d) = resume_files d"
    using cfiles_view [of "clearError n d" d "''resume''"] form_view_clearError [of n d]
    by (cases "control_by_id ''resume'' d"; cases "control_by_id ''resume'' (clearError n d)")
       (auto simp: resume_files_def)
  show "resume_files (d\<lparr>file_display := x\<rparr>) = resume_files d"
    by (simp add: resume_files_def control_by_id_def)
qed

lemma resume_files_set_files [simp]:
  "control_by_id ''resume'' d \<noteq> None \<Longrightarrow> resume_files (set_files_by_id ''resume'' fs d) = fs"
  by (auto simp: resume_files_def control_by_id_set_files)

lemma slot_text_simps [simp]:
  "slot_text n (set_files_by_id i fs d) = slot_text n d"
  "slot_text n (d\<lparr>file_display := x\<rparr>) = slot_text n d"
  "slot_text n (showError n m d) = map_option (\<lambda>_. m) (slot_by_id (err_id n) d)"
  "slot_text n (clearError n d) = map_option (\<lambda>_. []) (slot_by_id (err_id n) d)"
  by (simp_all add: slot_text_def slot_by_id_def slot_by_id_showError [unfolded slot_by_id_def]
      option.map_comp comp_def clearError_def set_field_error_def slot_by_id_set_slot_text [unfolded slot_by_id_def])

text \<open>The listener, once the selection is \<open>fs\<close>.\<close>

lemma resume_change_selected:
  assumes "control_by_id ''resume'' d = Some fi" and "cfiles fi = fs"
  shows "resume_change d =
           (case upload_verdict fs of
              Cleared \<Rightarrow> d\<lparr>file_display := upload_placeholder\<rparr>
            | RejectedType \<Rightarrow> set_files_by_id ''resume'' [] (showError ''resume'' msg_pdf_only d)
            | RejectedSize \<Rightarrow> set_files_by_id ''resume'' [] (showError ''resume'' msg_max_size d)
            | Accepted \<Rightarrow> clearError ''resume'' (d\<lparr>file_display := pdf_icon_html @ fname (hd fs)\<rparr>))"
  using assms by (auto simp: resume_change_def upload_verdict_def max_upload_size_def split: list.splits)

lemma control_by_id_exists [simp]:
  "control_by_id i (showError n m d) = None \<longleftrightarrow> control_by_id i d = None"
  "control_by_id i (clearError n d) = None \<longleftrightarrow> control_by_id i d = None"
  "control_by_id i (set_files_by_id j fs d) = None \<longleftrightarrow> control_by_id i d = None"
  "control_by_id i (d\<lparr>file_display := x\<rparr>) = None \<longleftrightarrow> control_by_id i d = None"
proof -
  have v: "form_view d = form_view d' \<Longrightarrow> control_by_id i d = None \<longleftrightarrow> control_by_id i d' = None" for d d'
    using control_by_id_view [of d d' i]
    by (cases "control_by_id i d"; cases "control_by_id i d'") auto
  show "control_by_id i (showError n m d) = None \<longleftrightarrow> control_by_id i d = None"
    by (rule v) (rule form_view_showError)
  show "control_by_id i (clearError n d) = None \<longleftrightarrow> control_by_id i d = None"
    by (rule v) (rule form_view_clearError)
  show "control_by_id i (set_files_by_id j fs d) = None \<longleftrightarrow> control_by_id i d = None"
    by (simp add: control_by_id_def set_files_by_id_def find_None_iff_not_ex list_ex_upd_first_inv)
  show "control_by_id i (d\<lparr>file_display := x\<rparr>) = None \<longleftrightarrow> control_by_id i d = None"
    by (simp add: control_by_id_def)
qed

lemma slot_by_id_display [simp]: "slot_by_id j (d\<lparr>file_display := x\<rparr>) = slot_by_id j d"
  by (simp add: slot_by_id_def)

lemma choose_resume_eq:
  assumes "control_by_id ''resume'' d \<noteq> None"
  shows "choose_resume fs d =
           (let d1 = set_files_by_id ''resume'' fs d in
            case upload_verdict fs of
              Cleared \<Rightarrow> d1\<lparr>file_display := upload_placeholder\<rparr>
            | RejectedType \<Rightarrow> set_files_by_id ''resume'' [] (showError ''resume'' msg_pdf_only d1)
            | RejectedSize \<Rightarrow> set_files_by_id ''resume'' [] (showError ''resume'' msg_max_size d1)
            | Accepted \<Rightarrow> clearError ''resume'' (d1\<lparr>file_display := pdf_icon_html @ fname (hd fs)\<rparr>))"
proof -
  from assms obtain fi where "control_by_id ''resume'' d = Some fi" by auto
  then have "control_by_id ''resume'' (set_files_by_id ''resume'' fs d) = Some (fi\<lparr>cfiles := fs\<rparr>)"
    by (simp add: control_by_id_set_files)
  from resume_change_selected [OF this] show ?thesis
    by (simp add: choose_resume_def Let_def)
qed

text \<open>
  C5.  The upload listener implements the contract of the spec: after the user picks
  \<open>fs\<close>, the selection is kept unless the first file is rejected, the display shows
  the placeholder for no file and the file name for an accepted file, and the upload's
  error slot shows the type or size message for a rejected file and is emptied for an
  accepted one.
\<close>

theorem choose_resume_contract:
  assumes "control_by_id ''resume'' d \<noteq> None"
  shows "resume_files (choose_resume fs d) =
           (if upload_verdict fs = RejectedType \<or> upload_verdict fs = RejectedSize then [] else fs) \<and>
         file_display (choose_resume fs d) =
           (case upload_verdict fs of
              Cleared \<Rightarrow> upload_placeholder
            | Accepted \<Rightarrow> pdf_icon_html @ fname (hd fs)
            | _ \<Rightarrow> file_display d) \<and>
         slot_text ''resume'' (choose_resume fs d) =
           (case upload_verdict fs of
              Cleared \<Rightarrow> slot_text ''resume'' d
            | RejectedType \<Rightarrow> map_option (\<lambda>_. msg_pdf_only) (slot_by_id (err_id ''resume'') d)
            | RejectedSize \<Rightarrow> map_option (\<lambda>_. msg_max_size) (slot_by_id (err_id ''resume'') d)
            | Accepted \<Rightarrow> map_option (\<lambda>_. []) (slot_by_id (err_id ''resume'') d))"
  using assms
  by (cases "upload_verdict fs") (simp_all add: choose_resume_eq Let_def slot_by_id_set_files)

text \<open>
  C6.  The size limit is inclusive: a PDF is kept exactly when it has at most
  5242880 bytes (5 MiB).
\<close>

theorem choose_resume_size_bound:
  assumes "control_by_id ''resume'' d \<noteq> None" and "fmime f = ''application/pdf''"
  shows "resume_files (choose_resume (f # fs) d) \<noteq> [] \<longleftrightarrow> fsize f \<le> 5242880"
  using assms
  by (auto simp: choose_resume_eq Let_def upload_verdict_def max_upload_size_def)

text \<open>
  C7.  A rejected file does not reset the upload display: after an accepted PDF, picking
  a file that is rejected empties the selection but the display still shows the accepted
  file's name.
\<close>

theorem rejected_after_accepted_keeps_name:
  assumes "control_by_id ''resume'' d \<noteq> None"
    and "upload_verdict [g] = Accepted"
    and "upload_verdict [b] = RejectedType \<or> upload_verdict [b] = RejectedSize"
  shows "resume_files (choose_resume [b] (choose_resume [g] d)) = [] \<and>
         file_display (choose_resume [b] (choose_resume [g] d)) = pdf_icon_html @ fname g"
proof -
  have g: "choose_resume [g] d = clearError ''resume''
             ((set_files_by_id ''resume'' [g] d)\<lparr>file_display := pdf_icon_html @ fname g\<rparr>)"
    using choose_resume_eq [OF assms(1), of "[g]"] assms(2) by (simp add: Let_def)
  have ex: "control_by_id ''resume'' (choose_resume [g] d) \<noteq> None"
    using assms(1) by (simp add: g)
  show ?thesis
    using choose_resume_eq [OF ex, of "[b]"] assms(3) ex
    by (auto simp: Let_def g)
qed

end
