(* ===== verification/PhoneMask.thy ===== *)
theory PhoneMask
  imports Dom
begin

text \<open>
  The phone mask of src/script.js (lines 288--300): an \<open>input\<close> listener on the element
  with id \<open>phone\<close>.  It strips every non-digit (\<open>replace(/\D/g, "")\<close>); when at most 11
  digits remain it replaces the first match of \<open>/(\d{2})(\d{4})(\d{4})/\<close> (at most 10
  digits) or \<open>/(\d{2})(\d{5})(\d{4})/\<close> (11 digits) by \<open>"($1) $2-$3"\<close> and writes the
  result back; with more than 11 digits the field keeps what the user typed.
\<close>

text \<open>
  \<open>String.prototype.replace\<close> with a non-global pattern of three digit groups: the
  leftmost position where \<open>a + b + c\<close> digits follow is replaced by the template.
\<close>

fun mask_groups :: "nat \<Rightarrow> nat \<Rightarrow> nat \<Rightarrow> jsstring \<Rightarrow> jsstring" where
  "mask_groups a b c s =
     (if a + b + c \<le> length s \<and> list_all js_is_digit (take (a + b + c) s)
      then js_str ''('' @ take a s @ js_str '') '' @ take b (drop a s) @ js_str ''-'' @
           take c (drop (a + b) s) @ drop (a + b + c) s
      else (case s of [] \<Rightarrow> [] | x # xs \<Rightarrow> x # mask_groups a b c xs))"

declare mask_groups.simps [simp del]

text \<open>The listener's computation: \<open>Some\<close> the value it writes back, \<open>None\<close> when it
  writes nothing.\<close>

definition phone_format :: "jsstring \<Rightarrow> jsstring option" where
  "phone_format raw =
     (let value = filter js_is_digit raw in
      if length value \<le> 11 then
        Some (if length value \<le> 10 then mask_groups 2 4 4 value else mask_groups 2 5 4 value)
      else None)"

definition set_value_by_id :: "string \<Rightarrow> jsstring \<Rightarrow> doc \<Rightarrow> doc" where
  "set_value_by_id i v d =
     d\<lparr>controls := upd_first (\<lambda>c. cid c = i) (\<lambda>c. c\<lparr>cvalue := v\<rparr>) (controls d)\<rparr>"

text \<open>The user edits the phone field to \<open>raw\<close>, then the mask listener runs.\<close>

definition phone_input :: "jsstring \<Rightarrow> doc \<Rightarrow> doc" where
  "phone_input raw d =
     (let d1 = set_value_by_id ''phone'' raw d in
      case phone_format raw of None \<Rightarrow> d1 | Some v \<Rightarrow> set_value_by_id ''phone'' v d1)"

text \<open>The display pattern of the spec (section 6): \<open>(DD) DDDD-DDDD\<close> and
  \<open>(DD) DDDDD-DDDD\<close>.\<close>

definition phone_pattern :: "nat \<Rightarrow> jsstring \<Rightarrow> jsstring" where
  "phone_pattern b ds = js_str ''('' @ take 2 ds @ js_str '') '' @ take b (drop 2 ds) @ js_str ''-'' @ drop (2 + b) ds"

subsection \<open>The regular-expression replacement on digit strings\<close>

lemma mask_groups_short:
  "length s < a + b + c \<Longrightarrow> mask_groups a b c s = s"
proof (induction s)
  case Nil
  then show ?case by (simp add: mask_groups.simps)
next
  case (Cons x xs)
  then show ?case by (subst mask_groups.simps) simp
qed

lemma mask_groups_digits:
  "list_all js_is_digit s \<Longrightarrow> a + b + c \<le> length s \<Longrightarrow>
   mask_groups a b c s = js_str ''('' @ take a s @ js_str '') '' @ take b (drop a s) @ js_str ''-'' @
     take c (drop (a + b) s) @ drop (a + b + c) s"
  by (subst mask_groups.simps) (auto simp: list_all_iff dest: in_set_takeD)

lemma list_all_digit_filter [simp]: "list_all js_is_digit (filter js_is_digit s)"
  by (simp add: list_all_iff)

lemma mask_10: "list_all js_is_digit ds \<Longrightarrow> length ds = 10 \<Longrightarrow> mask_groups 2 4 4 ds = phone_pattern 4 ds"
  by (simp add: mask_groups_digits phone_pattern_def)

lemma mask_11: "list_all js_is_digit ds \<Longrightarrow> length ds = 11 \<Longrightarrow> mask_groups 2 5 4 ds = phone_pattern 5 ds"
  by (simp add: mask_groups_digits phone_pattern_def)

lemma punctuation_not_digit [simp]:
  "\<not> js_is_digit 0x28" "\<not> js_is_digit 0x29" "\<not> js_is_digit 0x20" "\<not> js_is_digit 0x2D"
  by (simp_all add: js_is_digit_def)

lemma filter_digit_phone_pattern:
  "list_all js_is_digit ds \<Longrightarrow> filter js_is_digit (phone_pattern b ds) = ds"
proof -
  assume "list_all js_is_digit ds"
  then have "filter js_is_digit xs = xs" if "set xs \<subseteq> set ds" for xs
    using that by (simp add: list_all_iff filter_id_conv subset_iff)
  then have "filter js_is_digit (take 2 ds) = take 2 ds"
    "filter js_is_digit (take b (drop 2 ds)) = take b (drop 2 ds)"
    "filter js_is_digit (drop (2 + b) ds) = drop (2 + b) ds"
    by (auto dest: in_set_takeD in_set_dropD)
  moreover have "take 2 ds @ take b (drop 2 ds) @ drop (2 + b) ds = ds"
    by (metis append_take_drop_id drop_drop add.commute)
  ultimately show ?thesis
    by (simp add: phone_pattern_def)
qed

text \<open>
  C8.  The mask in closed form: with \<open>ds\<close> the digits of the input, fewer than 10 digits
  are written back unformatted, 10 digits as \<open>(DD) DDDD-DDDD\<close>, 11 digits as
  \<open>(DD) DDDDD-DDDD\<close>, and with more than 11 digits nothing is written.
\<close>

theorem phone_format_closed_form:
  "phone_format raw =
     (let ds = filter js_is_digit raw in
      if length ds < 10 then Some ds
      else if length ds = 10 then Some (phone_pattern 4 ds)
      else if length ds = 11 then Some (phone_pattern 5 ds)
      else None)"
  by (simp add: phone_format_def Let_def mask_groups_short mask_10 mask_11)

lemma phone_format_Some:
  "phone_format raw = Some v \<Longrightarrow>
   length (filter js_is_digit raw) \<le> 11 \<and>
   v = (if length (filter js_is_digit raw) < 10 then filter js_is_digit raw
        else phone_pattern (length (filter js_is_digit raw) - 6) (filter js_is_digit raw))"
proof -
  assume f: "phone_format raw = Some v"
  let ?ds = "filter js_is_digit raw"
  from f have le: "length ?ds \<le> 11" by (simp add: phone_format_def Let_def split: if_splits)
  then consider "length ?ds < 10" | "length ?ds = 10" | "length ?ds = 11" by arith
  then show ?thesis
  proof cases
    case 1
    with f show ?thesis by (simp add: phone_format_def mask_groups_short)
  next
    case 2
    with f show ?thesis by (simp add: phone_format_def mask_10)
  next
    case 3
    with f show ?thesis by (simp add: phone_format_def mask_11)
  qed
qed

text \<open>
  C10.  The mask neither loses nor invents a digit: whatever it writes back has the
  digits of the input, in order, and there are at most 11 of them.
\<close>

theorem phone_format_keeps_digits:
  "phone_format raw = Some v \<Longrightarrow>
   filter js_is_digit v = filter js_is_digit raw \<and> length (filter js_is_digit raw) \<le> 11"
  using phone_format_Some [of raw v] by (auto simp: filter_digit_phone_pattern)

text \<open>
  C9.  Re-applying the mask is stable: the mask runs on every keystroke, and on a value
  it has produced it writes back that same value.
\<close>

theorem phone_format_idempotent:
  "phone_format raw = Some v \<Longrightarrow> phone_format v = Some v"
proof -
  assume f: "phone_format raw = Some v"
  let ?ds = "filter js_is_digit raw"
  from phone_format_Some [OF f]
  have len: "length ?ds \<le> 11" and v: "v = (if length ?ds < 10 then ?ds else phone_pattern (length ?ds - 6) ?ds)"
    by simp_all
  have dv: "filter js_is_digit v = ?ds"
    using v by (simp add: filter_digit_phone_pattern)
  show ?thesis
  proof (cases "length ?ds < 10")
    case True
    then show ?thesis using dv v by (simp add: phone_format_def mask_groups_short)
  next
    case False
    then consider "length ?ds = 10" | "length ?ds = 11" using len by arith
    then show ?thesis
    proof cases
      case 1
      then show ?thesis using dv v by (simp add: phone_format_def mask_10)
    next
      case 2
      then show ?thesis using dv v by (simp add: phone_format_def mask_11)
    qed
  qed
qed

lemma control_by_id_set_value [dom_simps]:
  "control_by_id j (set_value_by_id i v d) =
     (if j = i then map_option (\<lambda>c. c\<lparr>cvalue := v\<rparr>) (control_by_id j d) else control_by_id j d)"
proof (cases "j = i")
  case True
  then show ?thesis by (simp add: control_by_id_def set_value_by_id_def find_upd_first_same)
next
  case False
  then have "find (\<lambda>c. cid c = j) (upd_first (\<lambda>c. cid c = i) (\<lambda>c. c\<lparr>cvalue := v\<rparr>) (controls d)) =
             find (\<lambda>c. cid c = j) (controls d)"
    by (intro find_upd_first_other) auto
  with False show ?thesis by (simp add: control_by_id_def set_value_by_id_def)
qed

text \<open>
  C11.  On the page, typing \<open>raw\<close> into the phone field leaves it holding, with
  \<open>ds\<close> the digits of \<open>raw\<close>: \<open>ds\<close> when there are fewer than 10, the pattern
  \<open>(DD) DDDD-DDDD\<close> for 10 and \<open>(DD) DDDDD-DDDD\<close> for 11, and \<open>raw\<close> itself, as
  typed, when there are more than 11; no other element found by its id changes.
\<close>

theorem phone_input_effect:
  assumes "control_by_id ''phone'' d = Some c"
  shows "map_option cvalue (control_by_id ''phone'' (phone_input raw d)) =
           Some (let ds = filter js_is_digit raw in
                 if length ds < 10 then ds
                 else if length ds = 10 then phone_pattern 4 ds
                 else if length ds = 11 then phone_pattern 5 ds
                 else raw) \<and>
         (\<forall>i. i \<noteq> ''phone'' \<longrightarrow> control_by_id i (phone_input raw d) = control_by_id i d)"
proof -
  have "(case phone_format raw of None \<Rightarrow> raw | Some v \<Rightarrow> v) =
        (let ds = filter js_is_digit raw in
         if length ds < 10 then ds else if length ds = 10 then phone_pattern 4 ds
         else if length ds = 11 then phone_pattern 5 ds else raw)"
    by (simp add: phone_format_def Let_def mask_groups_short mask_10 mask_11)
  moreover have "map_option cvalue (control_by_id ''phone'' (phone_input raw d)) =
           Some (case phone_format raw of None \<Rightarrow> raw | Some v \<Rightarrow> v) \<and>
         (\<forall>i. i \<noteq> ''phone'' \<longrightarrow> control_by_id i (phone_input raw d) = control_by_id i d)"
    using assms
    by (cases "phone_format raw")
       (simp_all add: phone_input_def Let_def control_by_id_set_value option.map_comp comp_def)
  ultimately show ?thesis by simp
qed

end
