(* ===== verification/Collector.thy ===== *)
theory Collector
  imports Dom
begin

text \<open>
  The Form Collector and the request payload of src/script.js.  \<open>collectFormData\<close>
  (lines 198--212) builds \<open>new FormData(form)\<close>, copies its entries into a plain object
  (a later entry with the same key overwrites an earlier one) and adds the first selected
  resume file under \<open>resumeFile\<close>.  \<open>sendToGoogleSheets\<close> (lines 87--99) then appends
  twelve fixed keys to a fresh \<open>FormData\<close>: five required fields and the password as
  they are (a missing one becomes the string \<open>"undefined"\<close>), five optional fields with
  \<open>|| ""\<close>, and the resume's file name only.

  \<open>new FormData(form)\<close> follows the HTML entry-list construction: controls in document
  order; disabled controls, controls without a name and buttons are skipped; a checkbox
  or radio button contributes only when checked; a file input contributes each selected
  file, or an empty file when none is selected; any other control its value.  The
  controls of the page model are the form's controls.
\<close>

datatype fd_value = FStr jsstring | FFile jsfile

definition empty_file :: jsfile where
  "empty_file = \<lparr>fname = [], fmime = ''application/octet-stream'', fsize = 0\<rparr>"

definition control_entries :: "control \<Rightarrow> (string \<times> fd_value) list" where
  "control_entries c =
     (if cdisabled c \<or> cname c = [] \<or> ctype c = Button then []
      else if ctype c = Radio \<or> ctype c = Checkbox then
        (if cchecked c then [(cname c, FStr (cvalue c))] else [])
      else if ctype c = File then
        (if cfiles c = [] then [(cname c, FFile empty_file)] else map (\<lambda>f. (cname c, FFile f)) (cfiles c))
      else [(cname c, FStr (cvalue c))])"

definition form_entries :: "doc \<Rightarrow> (string \<times> fd_value) list" where
  "form_entries d = concat (map control_entries (controls d))"

text \<open>\<open>for (const [key, value] of formData.entries()) data[key] = value\<close>.\<close>

definition entries_to_object :: "(string \<times> fd_value) list \<Rightarrow> (string \<rightharpoonup> fd_value)" where
  "entries_to_object es = fold (\<lambda>(k, v) m. m(k \<mapsto> v)) es Map.empty"

text \<open>\<open>collectFormData()\<close>; reading \<open>fileInput.files\<close> throws when there is no element
  with id \<open>resume\<close>.\<close>

definition collectFormData :: "doc \<Rightarrow> js_error + (string \<rightharpoonup> fd_value)" where
  "collectFormData d =
     (let data = entries_to_object (form_entries d) in
      case control_by_id ''resume'' d of
        None \<Rightarrow> Inl TypeError
      | Some fileInput \<Rightarrow>
          (case cfiles fileInput of
             [] \<Rightarrow> Inr data
           | f # _ \<Rightarrow> Inr (data(''resumeFile'' \<mapsto> FFile f))))"

text \<open>Property reads on the object: \<open>formData.k\<close> (\<open>undefined\<close> is appended as the
  string \<open>"undefined"\<close>), \<open>formData.k || ""\<close>, and
  \<open>formData.resumeFile ? formData.resumeFile.name : ""\<close>.\<close>

definition js_prop :: "(string \<rightharpoonup> fd_value) \<Rightarrow> string \<Rightarrow> fd_value" where
  "js_prop data k = (case data k of Some v \<Rightarrow> v | None \<Rightarrow> FStr (js_str ''undefined''))"

definition js_prop_or_empty :: "(string \<rightharpoonup> fd_value) \<Rightarrow> string \<Rightarrow> fd_value" where
  "js_prop_or_empty data k = (case data k of Some v \<Rightarrow> v | None \<Rightarrow> FStr [])"

definition resume_file_name :: "(string \<rightharpoonup> fd_value) \<Rightarrow> fd_value" where
  "resume_file_name data =
     (case data ''resumeFile'' of
        None \<Rightarrow> FStr []
      | Some (FFile f) \<Rightarrow> FStr (fname f)
      | Some (FStr s) \<Rightarrow> FStr (if s = [] then [] else js_str ''undefined''))"

definition build_payload :: "(string \<rightharpoonup> fd_value) \<Rightarrow> (string \<times> fd_value) list" where
  "build_payload formData =
     [(''fullName'', js_prop formData ''fullName''),
      (''email'', js_prop formData ''email''),
      (''phone'', js_prop formData ''phone''),
      (''birthDate'', js_prop formData ''birthDate''),
      (''gender'', js_prop formData ''gender''),
      (''address'', js_prop_or_empty formData ''address''),
      (''interest'', js_prop_or_empty formData ''interest''),
      (''experience'', js_prop_or_empty formData ''experience''),
      (''education'', js_prop_or_empty formData ''education''),
      (''login'', js_prop_or_empty formData ''login''),
      (''password'', js_prop formData ''password''),
      (''resumeFileName'', resume_file_name formData)]"

definition payload_keys :: "string list" where
  "payload_keys = [''fullName'', ''email'', ''phone'', ''birthDate'', ''gender'', ''address'',
     ''interest'', ''experience'', ''education'', ''login'', ''password'', ''resumeFileName'']"

definition is_text :: "fd_value \<Rightarrow> bool" where
  "is_text v \<longleftrightarrow> (case v of FStr _ \<Rightarrow> True | FFile _ \<Rightarrow> False)"

subsection \<open>The object built from the entries\<close>

lemma fold_upd_lookup:
  "fold (\<lambda>(k, v) m. m(k \<mapsto> v)) es m0 k = (case map_of (rev es) k of None \<Rightarrow> m0 k | Some v \<Rightarrow> Some v)"
  by (induction es arbitrary: m0) (auto split: option.splits)

lemma entries_to_object_lookup:
  "entries_to_object es k = map_of (rev es) k"
  by (simp add: entries_to_object_def fold_upd_lookup split: option.splits)

lemma form_entries_file:
  "(k, FFile f) \<in> set (form_entries d) \<Longrightarrow> \<exists>c\<in>set (controls d). ctype c = File \<and> cname c = k"
  by (auto simp: form_entries_def control_entries_def split: if_splits)

lemma form_entries_name:
  "(k, v) \<in> set (form_entries d) \<Longrightarrow> \<exists>c\<in>set (controls d). cname c = k"
  by (auto simp: form_entries_def control_entries_def split: if_splits)

lemma collectFormData_Some:
  "control_by_id ''resume'' d = Some fi \<Longrightarrow>
   collectFormData d = Inr ((entries_to_object (form_entries d))
     (''resumeFile'' := (case cfiles fi of [] \<Rightarrow> entries_to_object (form_entries d) ''resumeFile''
                         | f # _ \<Rightarrow> Some (FFile f))))"
  by (auto simp: collectFormData_def fun_upd_idem split: list.splits)

text \<open>
  C12.  The object \<open>collectFormData\<close> returns maps every key to the value of the last
  form entry with that key, except that \<open>resumeFile\<close> holds the first selected resume
  file when there is one; it throws only when there is no element with id \<open>resume\<close>.
\<close>

theorem collectFormData_lookup:
  assumes "control_by_id ''resume'' d = Some fi"
  shows "\<exists>data. collectFormData d = Inr data \<and>
           (\<forall>k. data k = (if k = ''resumeFile'' \<and> cfiles fi \<noteq> [] then Some (FFile (hd (cfiles fi)))
                          else map_of (rev (form_entries d)) k))"
  using collectFormData_Some [OF assms]
  by (auto simp: entries_to_object_lookup split: list.splits)

lemma payload_all_text:
  assumes data: "collectFormData d = Inr data"
    and files: "list_all (\<lambda>c. ctype c = File \<longrightarrow> cname c \<notin> set payload_keys) (controls d)"
  shows "list_all (\<lambda>(k, v). is_text v) (build_payload data)"
proof -
  from data obtain fi where fi: "control_by_id ''resume'' d = Some fi"
    by (cases "control_by_id ''resume'' d") (auto simp: collectFormData_def)
  have obj: "data = (entries_to_object (form_entries d))
     (''resumeFile'' := (case cfiles fi of [] \<Rightarrow> entries_to_object (form_entries d) ''resumeFile''
                         | f # _ \<Rightarrow> Some (FFile f)))"
    using collectFormData_Some [OF fi] data by simp
  have istext: "is_text v" if "data k = Some v" and "k \<in> set payload_keys" and "k \<noteq> ''resumeFile''" for k v
  proof (cases v)
    case (FFile f)
    with that obj have "(k, FFile f) \<in> set (form_entries d)"
      by (auto simp: entries_to_object_lookup dest: map_of_SomeD)
    then obtain c where "c \<in> set (controls d)" "ctype c = File" "cname c = k"
      using form_entries_file by blast
    with files that(2) show ?thesis by (auto simp: list_all_iff)
  qed (simp add: is_text_def)
  have pk: "is_text (js_prop data k)" "is_text (js_prop_or_empty data k)"
    if "k \<in> set payload_keys" "k \<noteq> ''resumeFile''" for k
    using istext [of k] that by (auto simp: js_prop_def js_prop_or_empty_def is_text_def split: option.splits)
  have "is_text (resume_file_name data)"
    by (simp add: resume_file_name_def is_text_def split: option.splits fd_value.splits)
  then show ?thesis
    unfolding build_payload_def by (simp add: pk payload_keys_def)
qed

lemma build_payload_keys: "map fst (build_payload data) = payload_keys"
  by (simp add: build_payload_def payload_keys_def)

text \<open>
  C13.  On a page where no file input bears one of the payload's keys and no control is
  named \<open>resumeFile\<close>, the request body has exactly the twelve fixed keys in order,
  every value is text (no file content is sent), and \<open>resumeFileName\<close> is the name
  of the selected resume file, or empty when none is selected.
\<close>

theorem payload_shape:
  assumes data: "collectFormData d = Inr data"
    and files: "list_all (\<lambda>c. ctype c = File \<longrightarrow> cname c \<notin> set payload_keys) (controls d)"
    and nores: "list_all (\<lambda>c. cname c \<noteq> ''resumeFile'') (controls d)"
  shows "map fst (build_payload data) = payload_keys \<and>
         list_all (\<lambda>(k, v). is_text v) (build_payload data) \<and>
         (\<exists>fi. control_by_id ''resume'' d = Some fi \<and>
            snd (last (build_payload data)) = FStr (case cfiles fi of [] \<Rightarrow> [] | f # _ \<Rightarrow> fname f))"
proof -
  from data obtain fi where fi: "control_by_id ''resume'' d = Some fi"
    by (cases "control_by_id ''resume'' d") (auto simp: collectFormData_def)
  have obj: "data = (entries_to_object (form_entries d))
     (''resumeFile'' := (case cfiles fi of [] \<Rightarrow> entries_to_object (form_entries d) ''resumeFile''
                         | f # _ \<Rightarrow> Some (FFile f)))"
    using collectFormData_Some [OF fi] data by simp
  have nr: "entries_to_object (form_entries d) ''resumeFile'' = None"
    using nores form_entries_name [of "''resumeFile''" _ d]
    by (auto simp: entries_to_object_lookup map_of_eq_None_iff list_all_iff)
  have "snd (last (build_payload data)) = FStr (case cfiles fi of [] \<Rightarrow> [] | f # _ \<Rightarrow> fname f)"
    using nr by (simp add: obj build_payload_def resume_file_name_def split: list.splits)
  then show ?thesis
    using fi payload_all_text [OF data files] build_payload_keys by simp
qed

text \<open>
  C14.  A required field with no entry is sent as the text \<open>"undefined"\<close>: when every
  control named \<open>gender\<close> is disabled (so \<open>new FormData\<close> skips it), the payload's
  \<open>gender\<close> is \<open>"undefined"\<close>, although \<open>validateForm\<close> counts a checked
  disabled radio as a selected gender.
\<close>

theorem payload_missing_gender_undefined:
  assumes "collectFormData d = Inr data"
    and "list_all (\<lambda>c. cname c = ''gender'' \<longrightarrow> cdisabled c) (controls d)"
  shows "map_of (build_payload data) ''gender'' = Some (FStr (js_str ''undefined''))"
proof -
  from assms(1) obtain fi where fi: "control_by_id ''resume'' d = Some fi"
    by (cases "control_by_id ''resume'' d") (auto simp: collectFormData_def)
  have "\<forall>v. (''gender'', v) \<notin> set (form_entries d)"
    using assms(2) by (auto simp: form_entries_def control_entries_def list_all_iff split: if_splits)
  then have "entries_to_object (form_entries d) ''gender'' = None"
    by (auto simp: entries_to_object_lookup map_of_eq_None_iff)
  then show ?thesis
    using collectFormData_Some [OF fi] assms(1)
    by (simp add: build_payload_def js_prop_def)
qed

end
