(* ===== verification/Lifecycle.thy ===== *)
theory Lifecycle
  imports Validator FileGuard PhoneMask Collector "HOL-Library.Multiset"
begin

text \<open>
  The Lifecycle Controller and the asynchronous part of the Submission Client of
  src/script.js, as a deterministic step function over the events the page receives.

  \<^item> \<open>Submit\<close>: \<open>handleSubmit\<close> (lines 66--78): validate; on success collect the form,
    \<open>showLoadingMessage\<close> (lines 272--276) and run \<open>sendToGoogleSheets\<close> up to its
    \<open>await\<close> (lines 80--112): the body is built, a 30000 ms abort timer is armed and the
    request is in flight.  An exception thrown on the way ends the handler with the page
    as it was at the throw.
  \<^item> \<open>NetResolve i\<close>, \<open>NetReject i\<close>: the network settles request \<open>i\<close>; the code after
    the \<open>await\<close> runs (success: \<open>clearTimeout\<close>, the success alert, a 1000 ms timer that
    offers to clear; failure: the connection-error alert), then \<open>finally\<close>
    \<open>hideLoadingMessage\<close> (lines 278--282).  A request that is no longer in flight
    ignores them.
  \<^item> \<open>AbortTimer i\<close>: the abort timer of request \<open>i\<close> fires once due;
    \<open>controller.abort()\<close> rejects a request still in flight with an \<open>AbortError\<close>,
    which the \<open>catch\<close> reports as a timeout.
  \<^item> \<open>PromptTimer a b\<close>: the 1000 ms timer after a success fires: \<open>confirm\<close> answered
    \<open>a\<close>; on yes \<open>clearForm\<close> asks again, answered \<open>b\<close>.
  \<^item> \<open>ClearClick a\<close>: the clear button: \<open>clearForm\<close> (lines 257--263) with \<open>confirm\<close>
    answered \<open>a\<close>; \<open>form.reset()\<close> restores default values, checks and empties file
    selections.
  \<^item> \<open>Type i v\<close>, \<open>Check i\<close>, \<open>PickFiles fs\<close>: the user edits the \<open>i\<close>-th control,
    clicks a checkbox or radio button, picks files for the upload; the listeners that
    \<open>setupEventListeners\<close> (lines 17--36), the phone mask (line 289) and
    \<open>setupFileUpload\<close> installed run, in registration order (the phone mask is
    registered when the script runs, the others on \<open>DOMContentLoaded\<close>).
  \<^item> \<open>Elapse n\<close>: \<open>n\<close> milliseconds pass.

  \<open>alert\<close> and \<open>confirm\<close> are recorded in a dialog log; the network sees the log of
  request bodies \<open>sent\<close>; \<open>outcomes\<close> records how each request ended, and when.

  The browser's side is \<open>allowed\<close> (which events can happen in a page state), and
  \<open>reach\<close> the pages reachable from a document under it.  The lemmas prove the busy
  state of the submit button, the clock and the abort timers as invariants of every
  step.  They also show that time alone returns the page to idle,
  and they give the effects of the clear button and the input listeners.
\<close>

datatype outcome = Success | Timeout | ConnectionFailure

datatype dialog = Alert jsstring | Confirm jsstring bool

datatype event =
    Submit | NetResolve nat | NetReject nat | AbortTimer nat | PromptTimer bool bool
  | ClearClick bool | Type nat jsstring | Check nat | PickFiles "jsfile list" | Elapse nat

record page =
  dom :: doc
  now :: nat
  sent :: "(nat \<times> (string \<times> fd_value) list) list"
  inflight :: "nat list"
  abort_timers :: "(nat \<times> nat) list"
  prompt_timers :: "nat list"
  outcomes :: "(nat \<times> outcome \<times> nat) list"
  dialogs :: "dialog list"

subsection \<open>Texts\<close>

definition loading_html :: jsstring where
  "loading_html = js_str ''<i class=\"fas fa-spinner fa-spin\"></i> Enviando...''"

definition idle_html :: jsstring where
  "idle_html = js_str ''<i class=\"fas fa-paper-plane\"></i> Enviar Candidatura''"

definition msg_success :: jsstring where
  "msg_success =
     [0x2705] @ js_str '' Formul'' @ [0xE1] @ js_str ''rio enviado com sucesso!'' @ [0x0A, 0x0A] @
     js_str ''Seus dados foram salvos e entraremos em contato em breve.'' @ [0x0A, 0x0A] @
     js_str ''Obrigado por se candidatar!''"

definition error_alert :: "jsstring \<Rightarrow> jsstring" where
  "error_alert message =
     [0x274C] @ js_str '' Erro: '' @ message @ [0x0A, 0x0A] @
     js_str ''Tente novamente ou entre em contato conosco se o problema persistir.''"

definition msg_connection :: jsstring where
  "msg_connection = js_str ''Erro de conex'' @ [0xE3] @ js_str ''o. Tente novamente.''"

definition msg_timeout :: jsstring where
  "msg_timeout = js_str ''Timeout: A requisi'' @ [0xE7, 0xE3] @ js_str ''o demorou muito para responder.''"

definition msg_offer_clear :: jsstring where
  "msg_offer_clear = js_str ''Dados enviados com sucesso! Deseja limpar o formul'' @ [0xE1] @ js_str ''rio?''"

definition msg_confirm_clear :: jsstring where
  "msg_confirm_clear = js_str ''Tem certeza que deseja limpar todos os campos?''"

definition abort_delay :: nat where
  "abort_delay = 30000"

definition prompt_delay :: nat where
  "prompt_delay = 1000"

subsection \<open>Handlers\<close>

definition showLoadingMessage :: "doc \<Rightarrow> unit dom_result" where
  "showLoadingMessage d =
     (case submit_btn d of
        None \<Rightarrow> Inl (TypeError, d)
      | Some b \<Rightarrow> Inr ((), d\<lparr>submit_btn := Some (b\<lparr>bdisabled := True, bhtml := loading_html\<rparr>)\<rparr>))"

text \<open>In a \<open>finally\<close> of an async function a throw only rejects the promise: a missing
  button leaves the page as it is.\<close>

definition hideLoadingMessage :: "doc \<Rightarrow> doc" where
  "hideLoadingMessage d =
     (case submit_btn d of
        None \<Rightarrow> d
      | Some b \<Rightarrow> d\<lparr>submit_btn := Some (b\<lparr>bdisabled := False, bhtml := idle_html\<rparr>)\<rparr>)"

text \<open>The synchronous part of \<open>sendToGoogleSheets\<close>: build the body, arm the abort
  timer, start the request.\<close>

definition send_start :: "(string \<rightharpoonup> fd_value) \<Rightarrow> page \<Rightarrow> page" where
  "send_start formData s =
     (let i = length (sent s) in
      s\<lparr>sent := sent s @ [(now s, build_payload formData)],
        inflight := inflight s @ [i],
        abort_timers := abort_timers s @ [(i, now s + abort_delay)]\<rparr>)"

definition handleSubmit :: "page \<Rightarrow> page" where
  "handleSubmit s =
     (case validateForm (dom s) of
        Inl (_, d1) \<Rightarrow> s\<lparr>dom := d1\<rparr>
      | Inr (False, d1) \<Rightarrow> s\<lparr>dom := d1\<rparr>
      | Inr (True, d1) \<Rightarrow>
          (case collectFormData d1 of
             Inl _ \<Rightarrow> s\<lparr>dom := d1\<rparr>
           | Inr formData \<Rightarrow>
               (case showLoadingMessage d1 of
                  Inl (_, d2) \<Rightarrow> s\<lparr>dom := d2\<rparr>
                | Inr (_, d2) \<Rightarrow> send_start formData (s\<lparr>dom := d2\<rparr>))))"

text \<open>The code after \<open>await fetch(...)\<close> for a request still in flight.\<close>

definition settle_ok :: "nat \<Rightarrow> page \<Rightarrow> page" where
  "settle_ok i s =
     s\<lparr>inflight := remove1 i (inflight s),
       abort_timers := filter (\<lambda>t. fst t \<noteq> i) (abort_timers s),
       dialogs := dialogs s @ [Alert msg_success],
       prompt_timers := prompt_timers s @ [now s + prompt_delay],
       outcomes := outcomes s @ [(i, Success, now s)],
       dom := hideLoadingMessage (dom s)\<rparr>"

definition settle_error :: "nat \<Rightarrow> outcome \<Rightarrow> jsstring \<Rightarrow> page \<Rightarrow> page" where
  "settle_error i oc errorMessage s =
     s\<lparr>inflight := remove1 i (inflight s),
       dialogs := dialogs s @ [Alert (error_alert errorMessage)],
       outcomes := outcomes s @ [(i, oc, now s)],
       dom := hideLoadingMessage (dom s)\<rparr>"

text \<open>\<open>form.reset()\<close>.\<close>

definition form_reset :: "doc \<Rightarrow> doc" where
  "form_reset d =
     d\<lparr>controls := map (\<lambda>c. c\<lparr>cvalue := cdef_value c, cchecked := cdef_checked c, cfiles := []\<rparr>) (controls d)\<rparr>"

definition clearForm :: "bool \<Rightarrow> page \<Rightarrow> page" where
  "clearForm answer s =
     (let s1 = s\<lparr>dialogs := dialogs s @ [Confirm msg_confirm_clear answer]\<rparr> in
      if answer then s1\<lparr>dom := (clearAllErrors (form_reset (dom s)))\<lparr>file_display := upload_placeholder\<rparr>\<rparr>
      else s1)"

text \<open>The first index of a control satisfying \<open>P\<close>: the element a query returns.\<close>

definition first_index :: "(control \<Rightarrow> bool) \<Rightarrow> doc \<Rightarrow> nat option" where
  "first_index P d = find (\<lambda>i. P (controls d ! i)) [0..<length (controls d)]"

text \<open>
  Does control \<open>i\<close> carry the listener \<open>() => clearError(fieldName)\<close>?  For a required
  name whose first element is a radio button every element with the name listens to
  \<open>change\<close>; otherwise only the first element with the name listens, to \<open>input\<close>
  and \<open>change\<close>.
\<close>

definition clears_on :: "bool \<Rightarrow> nat \<Rightarrow> doc \<Rightarrow> string option" where
  "clears_on is_input i d =
     (let n = cname (controls d ! i) in
      if n \<in> set requiredFields then
        (case query_name n d of
           None \<Rightarrow> None
         | Some f \<Rightarrow>
             if ctype f = Radio then (if is_input then None else Some n)
             else if first_index (\<lambda>c. cname c = n) d = Some i then Some n else None)
      else None)"

definition run_clear_listener :: "bool \<Rightarrow> nat \<Rightarrow> doc \<Rightarrow> doc" where
  "run_clear_listener is_input i d =
     (case clears_on is_input i d of None \<Rightarrow> d | Some n \<Rightarrow> clearError n d)"

definition set_control :: "nat \<Rightarrow> (control \<Rightarrow> control) \<Rightarrow> doc \<Rightarrow> doc" where
  "set_control i f d = d\<lparr>controls := (controls d)[i := f (controls d ! i)]\<rparr>"

text \<open>Typing into a text control: the \<open>input\<close> listeners run.\<close>

definition user_type :: "nat \<Rightarrow> jsstring \<Rightarrow> doc \<Rightarrow> doc" where
  "user_type i v d =
     (if i < length (controls d) then
        (let d1 = set_control i (\<lambda>c. c\<lparr>cvalue := v\<rparr>) d;
             d2 = (if first_index (\<lambda>c. cid c = ''phone'') d = Some i then phone_input v d else d1)
         in run_clear_listener True i d2)
      else d)"

text \<open>Clicking a checkbox toggles it; clicking an unchecked radio button checks it and
  unchecks the others of its group; then the \<open>input\<close> and \<open>change\<close> listeners run
  (the script's listeners for both call \<open>clearError\<close>, which is idempotent, so they
  are run once).  Clicking a radio button that is already checked changes nothing and
  fires no event.\<close>

definition user_check :: "nat \<Rightarrow> doc \<Rightarrow> doc" where
  "user_check i d =
     (if i < length (controls d) then
        (let c = controls d ! i;
             d1 = (if ctype c = Checkbox then set_control i (\<lambda>c. c\<lparr>cchecked := \<not> cchecked c\<rparr>) d
                   else if ctype c = Radio then
                     d\<lparr>controls := map (\<lambda>(j, x). if j = i then x\<lparr>cchecked := True\<rparr>
                         else if ctype x = Radio \<and> cname x = cname c then x\<lparr>cchecked := False\<rparr> else x)
                         (zip [0..<length (controls d)] (controls d))\<rparr>
                   else d)
         in if ctype c = Checkbox \<or> (ctype c = Radio \<and> \<not> cchecked c) then run_clear_listener False i d1
            else d)
      else d)"

definition page_step :: "page \<Rightarrow> event \<Rightarrow> page" where
  "page_step s e =
     (case e of
        Submit \<Rightarrow> handleSubmit s
      | NetResolve i \<Rightarrow> if i \<in> set (inflight s) then settle_ok i s else s
      | NetReject i \<Rightarrow>
          if i \<in> set (inflight s) then settle_error i ConnectionFailure msg_connection s else s
      | AbortTimer i \<Rightarrow>
          (case find (\<lambda>t. fst t = i \<and> snd t \<le> now s) (abort_timers s) of
             None \<Rightarrow> s
           | Some t \<Rightarrow>
               let s1 = s\<lparr>abort_timers := remove1 t (abort_timers s)\<rparr> in
               if i \<in> set (inflight s) then settle_error i Timeout msg_timeout s1 else s1)
      | PromptTimer a b \<Rightarrow>
          (case find (\<lambda>t. t \<le> now s) (prompt_timers s) of
             None \<Rightarrow> s
           | Some t \<Rightarrow>
               let s1 = s\<lparr>prompt_timers := remove1 t (prompt_timers s),
                          dialogs := dialogs s @ [Confirm msg_offer_clear a]\<rparr> in
               if a then clearForm b s1 else s1)
      | ClearClick a \<Rightarrow> clearForm a s
      | Type i v \<Rightarrow> s\<lparr>dom := user_type i v (dom s)\<rparr>
      | Check i \<Rightarrow> s\<lparr>dom := user_check i (dom s)\<rparr>
      | PickFiles fs \<Rightarrow> s\<lparr>dom := choose_resume fs (dom s)\<rparr>
      | Elapse n \<Rightarrow> s\<lparr>now := now s + n\<rparr>)"

definition page_run :: "page \<Rightarrow> event list \<Rightarrow> page" where
  "page_run s es = fold (\<lambda>e s. page_step s e) es s"

definition page_init :: "doc \<Rightarrow> page" where
  "page_init d =
     \<lparr>dom = d, now = 0, sent = [], inflight = [], abort_timers = [], prompt_timers = [],
      outcomes = [], dialogs = []\<rparr>"

subsection \<open>The browser's side: which events can happen\<close>

text \<open>
  The browser submits the form only through its submit button, and a disabled button
  submits nothing (neither a click nor implicit submission by Enter); a timer fires at
  its deadline, so time does not pass an armed abort timer.  Every other event may
  happen at any moment.
\<close>

definition allowed :: "page \<Rightarrow> event \<Rightarrow> bool" where
  "allowed s e =
     (case e of
        Submit \<Rightarrow> (case submit_btn (dom s) of None \<Rightarrow> False | Some b \<Rightarrow> \<not> bdisabled b)
      | Elapse n \<Rightarrow> list_all (\<lambda>t. now s + n \<le> snd t) (abort_timers s)
      | _ \<Rightarrow> True)"

inductive reach :: "doc \<Rightarrow> page \<Rightarrow> bool" for d0 :: doc where
  reach_init: "reach d0 (page_init d0)"
| reach_step: "reach d0 s \<Longrightarrow> allowed s e \<Longrightarrow> reach d0 (page_step s e)"

fun allowed_run :: "page \<Rightarrow> event list \<Rightarrow> bool" where
  "allowed_run s [] = True"
| "allowed_run s (e # es) = (allowed s e \<and> allowed_run (page_step s e) es)"

text \<open>The busy state of the submit button follows the request in flight.\<close>

definition busy_inv :: "page \<Rightarrow> bool" where
  "busy_inv s \<longleftrightarrow> length (inflight s) \<le> 1 \<and>
     (case submit_btn (dom s) of
        None \<Rightarrow> False
      | Some b \<Rightarrow> (bdisabled b \<longleftrightarrow> inflight s \<noteq> []) \<and> (inflight s \<noteq> [] \<longrightarrow> bhtml b = loading_html))"

text \<open>
  The timers and the clock: request \<open>i\<close> was sent at \<open>fst (sent s ! i)\<close>; its abort
  timer is due \<open>abort_delay\<close> later and has not passed; every in-flight request still
  has its timer; every outcome lies between the request's start and its deadline.
\<close>

definition timing_inv :: "page \<Rightarrow> bool" where
  "timing_inv s \<longleftrightarrow>
     distinct (inflight s) \<and>
     list_all (\<lambda>i. i < length (sent s) \<and> (i, fst (sent s ! i) + abort_delay) \<in> set (abort_timers s))
       (inflight s) \<and>
     list_all (\<lambda>(i, t). i < length (sent s) \<and> t = fst (sent s ! i) + abort_delay \<and> now s \<le> t)
       (abort_timers s) \<and>
     distinct (map fst (abort_timers s)) \<and>
     list_all (\<lambda>r. fst r \<le> now s) (sent s) \<and>
     list_all (\<lambda>(i, oc, t). i < length (sent s) \<and> fst (sent s ! i) \<le> t \<and>
                 t \<le> fst (sent s ! i) + abort_delay \<and> (oc = Timeout \<longrightarrow> t = fst (sent s ! i) + abort_delay))
       (outcomes s)"

text \<open>
  A schedule that lets the pending abort timers fire one after the other, in the order
  of their deadlines, with the clock advanced to each deadline.
\<close>

fun drain :: "nat \<Rightarrow> (nat \<times> nat) list \<Rightarrow> event list" where
  "drain t [] = []"
| "drain t ((i, d) # ts) = Elapse (d - t) # AbortTimer i # drain d ts"

definition settle_all :: "page \<Rightarrow> event list" where
  "settle_all s = drain (now s) (sort_key snd (abort_timers s))"

subsection \<open>Observations on the page\<close>

text \<open>The structure of the form: name, id and type of each control, in document order.\<close>

definition form_shape :: "doc \<Rightarrow> (string \<times> string \<times> input_type) list" where
  "form_shape d = map (\<lambda>c. (cname c, cid c, ctype c)) (controls d)"

text \<open>A form whose request body can only carry text: no file input is named with one
  of the body's keys.\<close>

definition payload_safe :: "doc \<Rightarrow> bool" where
  "payload_safe d \<longleftrightarrow> list_all (\<lambda>(n, _, t). t = File \<longrightarrow> n \<notin> set payload_keys) (form_shape d)"

text \<open>The notification \<open>showSuccessMessage\<close> or \<open>showErrorMessage\<close> shows for an outcome.\<close>

definition outcome_alert :: "outcome \<Rightarrow> dialog" where
  "outcome_alert oc =
     (case oc of
        Success \<Rightarrow> Alert msg_success
      | Timeout \<Rightarrow> Alert (error_alert msg_timeout)
      | ConnectionFailure \<Rightarrow> Alert (error_alert msg_connection))"

fun is_alert :: "dialog \<Rightarrow> bool" where
  "is_alert (Alert _) = True"
| "is_alert (Confirm _ _) = False"

subsection \<open>What the handlers change\<close>

lemma handleSubmit_cases:
  "(\<exists>d1. handleSubmit s = s\<lparr>dom := d1\<rparr>) \<or>
   (\<exists>d1 d2 formData. validateForm (dom s) = Inr (True, d1) \<and> collectFormData d1 = Inr formData \<and>
      showLoadingMessage d1 = Inr ((), d2) \<and> handleSubmit s = send_start formData (s\<lparr>dom := d2\<rparr>))"
  by (auto simp: handleSubmit_def split: sum.splits prod.splits bool.splits)

lemma send_start_sel [simp]:
  "sent (send_start f s) = sent s @ [(now s, build_payload f)]"
  "inflight (send_start f s) = inflight s @ [length (sent s)]"
  "outcomes (send_start f s) = outcomes s"
  "abort_timers (send_start f s) = abort_timers s @ [(length (sent s), now s + abort_delay)]"
  "now (send_start f s) = now s"
  "dom (send_start f s) = dom s"
  "prompt_timers (send_start f s) = prompt_timers s"
  "dialogs (send_start f s) = dialogs s"
  by (simp_all add: send_start_def Let_def)

lemma clearForm_sel [simp]:
  "sent (clearForm a s) = sent s" "inflight (clearForm a s) = inflight s"
  "outcomes (clearForm a s) = outcomes s" "abort_timers (clearForm a s) = abort_timers s"
  "now (clearForm a s) = now s" "prompt_timers (clearForm a s) = prompt_timers s"
  "dialogs (clearForm a s) = dialogs s @ [Confirm msg_confirm_clear a]"
  by (simp_all add: clearForm_def Let_def)

lemma sent_other_events:
  "e \<noteq> Submit \<Longrightarrow> sent (page_step s e) = sent s"
  by (cases e) (auto simp: page_step_def settle_ok_def settle_error_def Let_def split: option.splits)

text \<open>
  C15.  The page sends a request only when the user submits and \<open>validateForm\<close> has
  returned \<open>true\<close>; the request's body is the payload of the form collected from the
  page as validation left it.
\<close>

theorem send_requires_valid_form:
  assumes "sent (page_step s e) \<noteq> sent s"
  shows "e = Submit \<and>
         (\<exists>d1 formData. validateForm (dom s) = Inr (True, d1) \<and> collectFormData d1 = Inr formData \<and>
            sent (page_step s e) = sent s @ [(now s, build_payload formData)])"
proof -
  have e: "e = Submit"
    using assms sent_other_events by blast
  from handleSubmit_cases [of s] show ?thesis
  proof
    assume "\<exists>d1. handleSubmit s = s\<lparr>dom := d1\<rparr>"
    with assms e show ?thesis by (auto simp: page_step_def)
  next
    assume "\<exists>d1 d2 f. validateForm (dom s) = Inr (True, d1) \<and> collectFormData d1 = Inr f \<and>
      showLoadingMessage d1 = Inr ((), d2) \<and> handleSubmit s = send_start f (s\<lparr>dom := d2\<rparr>)"
    with e show ?thesis by (auto simp: page_step_def)
  qed
qed

subsection \<open>The submit button\<close>

lemma submit_btn_frame [simp]:
  "submit_btn (set_slot_text n m d) = submit_btn d"
  "submit_btn (set_field_error n b d) = submit_btn d"
  "submit_btn (showError n m d) = submit_btn d"
  "submit_btn (clearError n d) = submit_btn d"
  "submit_btn (clearAllErrors d) = submit_btn d"
  "submit_btn (set_files_by_id i fs d) = submit_btn d"
  "submit_btn (set_value_by_id i v d) = submit_btn d"
  "submit_btn (set_control k f d) = submit_btn d"
  "submit_btn (form_reset d) = submit_btn d"
  by (simp_all add: set_slot_text_def set_field_error_def showError_def clearError_def
      clearAllErrors_def set_files_by_id_def set_value_by_id_def set_control_def form_reset_def)

lemma submit_btn_handlers [simp]:
  "submit_btn (run_clear_listener b k d) = submit_btn d"
  "submit_btn (phone_input v d) = submit_btn d"
  "submit_btn (user_type k v d) = submit_btn d"
  "submit_btn (user_check k d) = submit_btn d"
  "submit_btn (resume_change d) = submit_btn d"
  "submit_btn (choose_resume fs d) = submit_btn d"
  by (auto simp: run_clear_listener_def phone_input_def user_type_def user_check_def Let_def
      resume_change_def choose_resume_def split: option.splits list.splits)

lemma submit_btn_present [simp]: "submit_btn (present ms d) = submit_btn d"
  by (induction ms arbitrary: d) auto

lemma submit_btn_validateForm:
  "validateForm d = Inl (e, d1) \<Longrightarrow> submit_btn d1 = submit_btn d"
  "validateForm d = Inr (ok, d1) \<Longrightarrow> submit_btn d1 = submit_btn d"
  using validate_fields_eq [of "clearAllErrors d" "clearAllErrors d" requiredFields True]
  by (auto simp: validateForm_def split: sum.splits option.splits if_splits prod.splits)


subsection \<open>Runs and reachable pages\<close>

lemma page_run_simps [simp]:
  "page_run s [] = s"
  "page_run s (e # es) = page_run (page_step s e) es"
  by (simp_all add: page_run_def)

lemma page_run_append: "page_run s (es @ es') = page_run (page_run s es) es'"
  by (simp add: page_run_def)

lemma allowed_run_append:
  "allowed_run s (es @ es') \<longleftrightarrow> allowed_run s es \<and> allowed_run (page_run s es) es'"
  by (induction es arbitrary: s) auto

lemma reach_run: "reach d0 s \<Longrightarrow> allowed_run s es \<Longrightarrow> reach d0 (page_run s es)"
  by (induction es arbitrary: s) (auto intro: reach_step)

lemma reach_iff_run:
  "reach d0 s \<longleftrightarrow> (\<exists>es. allowed_run (page_init d0) es \<and> s = page_run (page_init d0) es)"
proof
  assume "reach d0 s"
  then show "\<exists>es. allowed_run (page_init d0) es \<and> s = page_run (page_init d0) es"
  proof (induction rule: reach.induct)
    case reach_init
    show ?case by (rule exI [of _ "[]"]) simp
  next
    case (reach_step s e)
    then obtain es where "allowed_run (page_init d0) es" and "s = page_run (page_init d0) es"
      by blast
    with reach_step.hyps(2) show ?case
      by (intro exI [of _ "es @ [e]"]) (simp add: allowed_run_append page_run_append)
  qed
next
  assume "\<exists>es. allowed_run (page_init d0) es \<and> s = page_run (page_init d0) es"
  then show "reach d0 s" using reach_run reach_init by blast
qed

lemma reach_invariant:
  assumes "reach d0 s" and "P (page_init d0)"
    and "\<And>s e. P s \<Longrightarrow> allowed s e \<Longrightarrow> P (page_step s e)"
  shows "P s"
  using assms(1) by induction (use assms(2,3) in auto)

subsection \<open>The busy state of the submit button\<close>

lemma handleSubmit_button:
  "(\<exists>d1. handleSubmit s = s\<lparr>dom := d1\<rparr> \<and> submit_btn d1 = submit_btn (dom s)) \<or>
   (\<exists>d1 formData b. validateForm (dom s) = Inr (True, d1) \<and> collectFormData d1 = Inr formData \<and>
      submit_btn (dom s) = Some b \<and>
      handleSubmit s =
        send_start formData (s\<lparr>dom := d1\<lparr>submit_btn := Some (b\<lparr>bdisabled := True, bhtml := loading_html\<rparr>)\<rparr>\<rparr>))"
  by (auto simp: handleSubmit_def showLoadingMessage_def dest: submit_btn_validateForm
      split: sum.splits prod.splits bool.splits option.splits)

lemma busy_inv_upd [simp]:
  "busy_inv (s\<lparr>abort_timers := x\<rparr>) = busy_inv s"
  "busy_inv (s\<lparr>now := n\<rparr>) = busy_inv s"
  by (simp_all add: busy_inv_def cong: option.case_cong)

lemma busy_settle:
  assumes "busy_inv s" and "i \<in> set (inflight s)"
    and "inflight t = remove1 i (inflight s)" and "dom t = hideLoadingMessage (dom s)"
  shows "busy_inv t"
proof -
  have "inflight s = [i]"
    using assms(1,2) by (cases "inflight s") (auto simp: busy_inv_def)
  with assms show ?thesis
    by (auto simp: busy_inv_def hideLoadingMessage_def split: option.splits)
qed

lemma busy_step:
  assumes inv: "busy_inv s" and al: "allowed s e"
  shows "busy_inv (page_step s e)"
proof (cases e)
  case Submit
  with al obtain b where b: "submit_btn (dom s) = Some b" "\<not> bdisabled b"
    by (auto simp: allowed_def split: option.splits)
  with inv have idle: "inflight s = []" by (simp add: busy_inv_def)
  from handleSubmit_button [of s] show ?thesis
  proof
    assume "\<exists>d1. handleSubmit s = s\<lparr>dom := d1\<rparr> \<and> submit_btn d1 = submit_btn (dom s)"
    then obtain d1 where "handleSubmit s = s\<lparr>dom := d1\<rparr>" and "submit_btn d1 = submit_btn (dom s)"
      by blast
    with Submit inv show ?thesis by (simp add: page_step_def busy_inv_def cong: option.case_cong)
  qed (use Submit idle in \<open>auto simp: page_step_def busy_inv_def\<close>)
next
  case (NetResolve i)
  with inv show ?thesis by (auto simp: page_step_def settle_ok_def intro: busy_settle)
next
  case (NetReject i)
  with inv show ?thesis by (auto simp: page_step_def settle_error_def intro: busy_settle)
next
  case (AbortTimer i)
  with inv show ?thesis
    by (auto simp: page_step_def settle_error_def Let_def intro: busy_settle split: option.splits)
qed (use inv in \<open>auto simp: page_step_def busy_inv_def clearForm_def Let_def split: option.splits\<close>)


subsection \<open>The clock and the abort timers\<close>

lemma distinct_map_remove1: "distinct (map f xs) \<Longrightarrow> distinct (map f (remove1 x xs))"
  by (induction xs) (auto dest: subsetD [OF set_remove1_subset])

lemma timing_inv_frame:
  "sent t = sent s \<Longrightarrow> inflight t = inflight s \<Longrightarrow> abort_timers t = abort_timers s \<Longrightarrow>
   now t = now s \<Longrightarrow> outcomes t = outcomes s \<Longrightarrow> timing_inv t = timing_inv s"
  by (simp add: timing_inv_def)

lemma timing_init: "timing_inv (page_init d)"
  by (simp add: timing_inv_def page_init_def)

lemma timing_send:
  assumes "timing_inv s"
  shows "timing_inv (send_start f (s\<lparr>dom := d\<rparr>))"
proof -
  let ?n = "length (sent s)"
  have old: "\<forall>i\<in>set (inflight s). i < ?n" "\<forall>t\<in>set (abort_timers s). fst t < ?n"
    using assms by (auto simp: timing_inv_def list_all_iff)
  then have fresh: "?n \<notin> set (inflight s)" "?n \<notin> fst ` set (abort_timers s)"
    by auto
  show ?thesis
    using assms old fresh
    by (auto simp: timing_inv_def list_all_iff nth_append split: prod.splits)
qed

lemma timing_settle:
  assumes inv: "timing_inv s" and i: "i \<in> set (inflight s)"
    and fl: "inflight t = remove1 i (inflight s)"
    and same: "sent t = sent s" "now t = now s"
    and oc: "outcomes t = outcomes s @ [(i, oc, now s)]"
    and to: "oc = Timeout \<Longrightarrow> now s = fst (sent s ! i) + abort_delay"
    and sub: "set (abort_timers t) \<subseteq> set (abort_timers s)"
    and keep: "\<And>x. x \<in> set (abort_timers s) \<Longrightarrow> fst x \<noteq> i \<Longrightarrow> x \<in> set (abort_timers t)"
    and dis: "distinct (map fst (abort_timers t))"
  shows "timing_inv t"
proof -
  have d: "distinct (inflight s)" using inv by (simp add: timing_inv_def)
  have fl_set: "set (inflight t) = set (inflight s) - {i}"
    using fl d by simp
  have own: "i < length (sent s)" "(i, fst (sent s ! i) + abort_delay) \<in> set (abort_timers s)"
    using inv i by (auto simp: timing_inv_def list_all_iff)
  then have "now s \<le> fst (sent s ! i) + abort_delay"
    using inv by (auto simp: timing_inv_def list_all_iff)
  moreover have "fst (sent s ! i) \<le> now s"
    using inv own(1) by (auto simp: timing_inv_def list_all_iff)
  ultimately show ?thesis
    using inv fl d fl_set same oc to sub keep dis own(1)
    by (auto simp: timing_inv_def list_all_iff)
qed

lemma timing_step:
  assumes inv: "timing_inv s" and al: "allowed s e"
  shows "timing_inv (page_step s e)"
proof (cases e)
  case Submit
  from handleSubmit_cases [of s] show ?thesis
  proof
    assume "\<exists>d1. handleSubmit s = s\<lparr>dom := d1\<rparr>"
    with Submit inv show ?thesis by (auto simp: page_step_def timing_inv_def)
  next
    assume "\<exists>d1 d2 f. validateForm (dom s) = Inr (True, d1) \<and> collectFormData d1 = Inr f \<and>
      showLoadingMessage d1 = Inr ((), d2) \<and> handleSubmit s = send_start f (s\<lparr>dom := d2\<rparr>)"
    with Submit inv show ?thesis by (auto simp: page_step_def intro: timing_send)
  qed
next
  case (NetResolve i)
  with inv show ?thesis
    by (auto simp: page_step_def settle_ok_def distinct_map_filter timing_inv_def [of s]
        intro!: timing_settle [OF inv])
next
  case (NetReject i)
  with inv show ?thesis
    by (auto simp: page_step_def settle_error_def timing_inv_def [of s] intro!: timing_settle [OF inv])
next
  case (AbortTimer i)
  show ?thesis
  proof (cases "find (\<lambda>t. fst t = i \<and> snd t \<le> now s) (abort_timers s)")
    case None
    with AbortTimer inv show ?thesis by (simp add: page_step_def)
  next
    case (Some x)
    then have x: "x \<in> set (abort_timers s)" "fst x = i" "snd x \<le> now s"
      using find_Some_in_set by fastforce+
    with inv have dl: "now s = fst (sent s ! i) + abort_delay"
      by (auto simp: timing_inv_def list_all_iff)
    have dis: "distinct (map fst (remove1 x (abort_timers s)))"
      using inv by (simp add: timing_inv_def distinct_map_remove1)
    have sub: "set (remove1 x (abort_timers s)) \<subseteq> set (abort_timers s)"
      by (rule set_remove1_subset)
    have keep: "y \<in> set (remove1 x (abort_timers s))" if "y \<in> set (abort_timers s)" "fst y \<noteq> i" for y
    proof -
      have "y \<noteq> x" using that x(2) by auto
      with that(1) show ?thesis by simp
    qed
    show ?thesis
    proof (cases "i \<in> set (inflight s)")
      case True
      with AbortTimer Some show ?thesis
        by (simp add: page_step_def Let_def settle_error_def)
           (rule timing_settle [OF inv True]; simp add: dl sub keep dis)
    next
      case False
      with AbortTimer Some inv dis show ?thesis
        by (auto simp: page_step_def Let_def timing_inv_def list_all_iff intro!: keep
            dest!: subsetD [OF sub])
    qed
  qed
next
  case (Elapse n)
  with inv al show ?thesis
    by (auto simp: page_step_def allowed_def timing_inv_def list_all_iff)
qed (use inv in \<open>auto simp: page_step_def timing_inv_def Let_def split: option.splits\<close>)

lemma reach_timing: "reach d0 s \<Longrightarrow> timing_inv s"
  using reach_invariant timing_init timing_step by metis

lemma reach_busy: "reach d0 s \<Longrightarrow> busy_inv (page_init d0) \<Longrightarrow> busy_inv s"
  using reach_invariant busy_step by metis

lemma busy_init: "submit_btn d0 = Some b0 \<Longrightarrow> \<not> bdisabled b0 \<Longrightarrow> busy_inv (page_init d0)"
  by (simp add: busy_inv_def page_init_def)

text \<open>
  C16.  On every page reachable from a document whose submit button is present and
  enabled, at most one request is in flight, and the submit button is disabled, showing
  the spinner text, exactly while a request is in flight: \<open>showLoadingMessage\<close> and
  \<open>hideLoadingMessage\<close> bracket every request.
\<close>

theorem submit_button_tracks_request:
  assumes "reach d0 s" and "submit_btn d0 = Some b0" and "\<not> bdisabled b0"
  shows "length (inflight s) \<le> 1 \<and>
         (\<exists>b. submit_btn (dom s) = Some b \<and> (bdisabled b \<longleftrightarrow> inflight s \<noteq> []) \<and>
              (inflight s \<noteq> [] \<longrightarrow> bhtml b = loading_html))"
  using reach_busy [OF assms(1) busy_init [OF assms(2,3)]]
  by (auto simp: busy_inv_def split: option.splits)

text \<open>
  C17.  The 30 s timeout bounds every request: on every reachable page, a request still
  in flight was sent at most \<open>abort_delay\<close> ms ago, and every recorded outcome lies
  between the request's start and start + \<open>abort_delay\<close>; a \<open>Timeout\<close> is recorded
  exactly at the deadline.
\<close>

theorem request_settles_by_deadline:
  assumes "reach d0 s"
  shows "(\<forall>i\<in>set (inflight s). now s \<le> fst (sent s ! i) + abort_delay) \<and>
         (\<forall>(i, oc, t)\<in>set (outcomes s). fst (sent s ! i) \<le> t \<and> t \<le> fst (sent s ! i) + abort_delay \<and>
             (oc = Timeout \<longrightarrow> t = fst (sent s ! i) + abort_delay))"
proof -
  have inv: "timing_inv s" using assms by (rule reach_timing)
  then have "now s \<le> fst (sent s ! i) + abort_delay" if "i \<in> set (inflight s)" for i
    using that by (fastforce simp: timing_inv_def list_all_iff)
  with inv show ?thesis
    by (fastforce simp: timing_inv_def list_all_iff)
qed

subsection \<open>Time alone brings the page back to idle\<close>

lemma drain_events: "list_all (\<lambda>e. case e of Elapse _ \<Rightarrow> True | AbortTimer _ \<Rightarrow> True | _ \<Rightarrow> False) (drain t ts)"
  by (induction t ts rule: drain.induct) simp_all

lemma abort_timer_step:
  "find (\<lambda>t. fst t = i \<and> snd t \<le> now s) (abort_timers s) = Some x \<Longrightarrow>
   abort_timers (page_step s (AbortTimer i)) = remove1 x (abort_timers s) \<and>
   now (page_step s (AbortTimer i)) = now s"
  by (simp add: page_step_def Let_def settle_error_def)

lemma drain_run:
  assumes "mset ts = mset (abort_timers s)" and "sorted (map snd ts)"
    and "list_all (\<lambda>t. now s \<le> snd t \<and> snd t \<le> B) ts" and "distinct (map fst ts)" and "now s \<le> B"
  shows "allowed_run s (drain (now s) ts) \<and> abort_timers (page_run s (drain (now s) ts)) = [] \<and>
         now (page_run s (drain (now s) ts)) \<le> B"
  using assms
proof (induction ts arbitrary: s)
  case Nil
  then show ?case by simp
next
  case (Cons x ts)
  obtain i d where x: "x = (i, d)" by (cases x)
  let ?s1 = "page_step s (Elapse (d - now s))"
  let ?s2 = "page_step ?s1 (AbortTimer i)"
  have set_eq: "set (abort_timers s) = set (x # ts)"
    using Cons.prems(1) by (metis mset_eq_setD)
  have nd: "now s \<le> d" "d \<le> B" using Cons.prems(3) x by simp_all
  have le: "\<forall>t\<in>set ts. d \<le> snd t" using Cons.prems(2) x by simp
  have allowed1: "allowed s (Elapse (d - now s))"
    using set_eq le nd by (auto simp: allowed_def list_all_iff x)
  have s1: "now ?s1 = d" "abort_timers ?s1 = abort_timers s"
    using nd by (simp_all add: page_step_def)
  have dis: "distinct (map fst (abort_timers ?s1))"
    using Cons.prems(4) distinct_map_mset_eq [OF Cons.prems(1), of fst] s1 by (simp only:)
  have "find (\<lambda>t. fst t = i \<and> snd t \<le> now ?s1) (abort_timers ?s1) = Some (i, d)"
    using find_unique_key [OF dis, of i d "\<lambda>v. v \<le> now ?s1"] set_eq s1 x by simp
  then have s2: "abort_timers ?s2 = remove1 (i, d) (abort_timers s)" "now ?s2 = d"
    using abort_timer_step s1 by simp_all
  have "mset ts = mset (abort_timers ?s2)"
    using Cons.prems(1) s2 x by (metis add_mset_remove_trivial mset.simps(2) mset_remove1)
  moreover have "list_all (\<lambda>t. now ?s2 \<le> snd t \<and> snd t \<le> B) ts"
    using Cons.prems(3) le s2 by (simp add: list_all_iff)
  ultimately have IH: "allowed_run ?s2 (drain (now ?s2) ts) \<and> abort_timers (page_run ?s2 (drain (now ?s2) ts)) = [] \<and>
      now (page_run ?s2 (drain (now ?s2) ts)) \<le> B"
    using Cons.IH [of ?s2] Cons.prems(2,4) nd s2 by simp
  then show ?case
    using allowed1 s2 x by (simp add: allowed_def)
qed

text \<open>
  C18.  No state is a dead end for the user: from every page reachable from a document
  whose submit button is enabled, letting time pass and the pending abort timers fire
  (and no other event) is a possible continuation which, within \<open>abort_delay\<close> ms,
  leaves no request in flight and the submit button enabled, so the form can be
  submitted again.
\<close>

theorem page_returns_to_idle:
  assumes "reach d0 s" and "submit_btn d0 = Some b0" and "\<not> bdisabled b0"
  shows "list_all (\<lambda>e. case e of Elapse _ \<Rightarrow> True | AbortTimer _ \<Rightarrow> True | _ \<Rightarrow> False) (settle_all s) \<and>
         allowed_run s (settle_all s) \<and>
         inflight (page_run s (settle_all s)) = [] \<and>
         (\<exists>b. submit_btn (dom (page_run s (settle_all s))) = Some b \<and> \<not> bdisabled b) \<and>
         now (page_run s (settle_all s)) \<le> now s + abort_delay"
proof -
  let ?ts = "sort_key snd (abort_timers s)"
  let ?s' = "page_run s (settle_all s)"
  have inv: "timing_inv s" using assms(1) by (rule reach_timing)
  have "list_all (\<lambda>t. now s \<le> snd t \<and> snd t \<le> now s + abort_delay) (abort_timers s)"
    using inv by (fastforce simp: timing_inv_def list_all_iff)
  then have bounds: "list_all (\<lambda>t. now s \<le> snd t \<and> snd t \<le> now s + abort_delay) ?ts"
    by (simp add: list_all_iff)
  have dis: "distinct (map fst ?ts)"
    using inv distinct_map_mset_eq [of ?ts "abort_timers s" fst] by (simp add: timing_inv_def)
  have run: "allowed_run s (settle_all s) \<and> abort_timers ?s' = [] \<and> now ?s' \<le> now s + abort_delay"
    using drain_run [of ?ts s "now s + abort_delay"] bounds dis by (simp add: settle_all_def)
  then have r': "reach d0 ?s'" using reach_run [OF assms(1)] by blast
  have "inflight ?s' = []"
    using reach_timing [OF r'] run by (cases "inflight ?s'") (auto simp: timing_inv_def)
  moreover have "busy_inv ?s'"
    using reach_busy [OF r' busy_init [OF assms(2,3)]] .
  ultimately show ?thesis
    using run drain_events by (auto simp: settle_all_def busy_inv_def split: option.splits)
qed

subsection \<open>Every handler keeps the structure of the form\<close>

lemma form_shape_upd_first [simp]:
  "(\<And>c. cname (f c) = cname c \<and> cid (f c) = cid c \<and> ctype (f c) = ctype c) \<Longrightarrow>
   map (\<lambda>c. (cname c, cid c, ctype c)) (upd_first P f cs) = map (\<lambda>c. (cname c, cid c, ctype c)) cs"
  by (rule map_upd_first_inv) simp

lemma form_shape_frame [simp]:
  "form_shape (set_slot_text n m d) = form_shape d"
  "form_shape (set_field_error n b d) = form_shape d"
  "form_shape (showError n m d) = form_shape d"
  "form_shape (clearError n d) = form_shape d"
  "form_shape (clearAllErrors d) = form_shape d"
  "form_shape (set_files_by_id i fs d) = form_shape d"
  "form_shape (set_value_by_id i v d) = form_shape d"
  "form_shape (form_reset d) = form_shape d"
  "form_shape (d\<lparr>submit_btn := x\<rparr>) = form_shape d"
  "form_shape (d\<lparr>file_display := y\<rparr>) = form_shape d"
  by (simp_all add: form_shape_def set_slot_text_def set_field_error_def showError_def clearError_def
      clearAllErrors_def set_files_by_id_def set_value_by_id_def form_reset_def)

lemma form_shape_set_control:
  "(\<And>c. cname (f c) = cname c \<and> cid (f c) = cid c \<and> ctype (f c) = ctype c) \<Longrightarrow>
   form_shape (set_control i f d) = form_shape d"
  by (simp add: form_shape_def set_control_def map_update_inv)

lemma form_shape_radio_group:
  "map ((\<lambda>c. (cname c, cid c, ctype c)) \<circ>
          (\<lambda>(j, x). if j = i then x\<lparr>cchecked := True\<rparr> else if P x then x\<lparr>cchecked := False\<rparr> else x))
     (zip [0..<length cs] cs) =
   map (\<lambda>c. (cname c, cid c, ctype c)) cs"
  by (rule nth_equalityI) auto

lemma form_shape_handlers [simp]:
  "form_shape (present ms d) = form_shape d"
  "form_shape (run_clear_listener b k d) = form_shape d"
  "form_shape (phone_input v d) = form_shape d"
  "form_shape (resume_change d) = form_shape d"
  "form_shape (choose_resume fs d) = form_shape d"
  "form_shape (user_type k v d) = form_shape d"
  "form_shape (user_check k d) = form_shape d"
proof -
  show "form_shape (present ms d) = form_shape d"
    by (induction ms arbitrary: d) auto
  show q: "form_shape (run_clear_listener b k d) = form_shape d" for b k d
    by (simp add: run_clear_listener_def split: option.splits)
  show p: "form_shape (phone_input v d) = form_shape d"
    by (simp add: phone_input_def Let_def split: option.splits)
  show r: "form_shape (resume_change d) = form_shape d" for d
    by (simp add: resume_change_def split: option.splits list.splits)
  show "form_shape (choose_resume fs d) = form_shape d"
    by (simp add: choose_resume_def r)
  show "form_shape (user_type k v d) = form_shape d"
    by (simp add: user_type_def Let_def p q form_shape_set_control)
  show "form_shape (user_check k d) = form_shape d"
    by (simp add: user_check_def Let_def q form_shape_set_control)
       (simp add: form_shape_def form_shape_radio_group)
qed

lemma form_shape_validateForm:
  "validateForm d = Inl (e, d1) \<Longrightarrow> form_shape d1 = form_shape d"
  "validateForm d = Inr (ok, d1) \<Longrightarrow> form_shape d1 = form_shape d"
  using validate_fields_eq [of "clearAllErrors d" "clearAllErrors d" requiredFields True]
  by (auto simp: validateForm_def split: sum.splits option.splits if_splits prod.splits)

lemma handleSubmit_shape: "form_shape (dom (handleSubmit s)) = form_shape (dom s)"
  by (auto simp: handleSubmit_def showLoadingMessage_def dest: form_shape_validateForm
      split: sum.splits prod.splits bool.splits option.splits)

lemma form_shape_step: "form_shape (dom (page_step s e)) = form_shape (dom s)"
  by (cases e) (auto simp: page_step_def handleSubmit_shape settle_ok_def settle_error_def
      hideLoadingMessage_def clearForm_def Let_def split: option.splits)

subsection \<open>What the network receives\<close>

lemma payload_safe_controls:
  "payload_safe d \<longleftrightarrow> list_all (\<lambda>c. ctype c = File \<longrightarrow> cname c \<notin> set payload_keys) (controls d)"
  by (simp add: payload_safe_def form_shape_def list_all_iff)

lemma sent_text_step:
  assumes safe: "payload_safe (dom s)"
    and ok: "list_all (\<lambda>r. map fst (snd r) = payload_keys \<and> list_all (\<lambda>(k, v). is_text v) (snd r)) (sent s)"
  shows "list_all (\<lambda>r. map fst (snd r) = payload_keys \<and> list_all (\<lambda>(k, v). is_text v) (snd r))
           (sent (page_step s e))"
proof (cases "e = Submit")
  case True
  from handleSubmit_cases [of s] show ?thesis
  proof
    assume "\<exists>d1. handleSubmit s = s\<lparr>dom := d1\<rparr>"
    with True ok show ?thesis by (auto simp: page_step_def)
  next
    assume "\<exists>d1 d2 f. validateForm (dom s) = Inr (True, d1) \<and> collectFormData d1 = Inr f \<and>
      showLoadingMessage d1 = Inr ((), d2) \<and> handleSubmit s = send_start f (s\<lparr>dom := d2\<rparr>)"
    then obtain d1 d2 f where v: "validateForm (dom s) = Inr (True, d1)" and c: "collectFormData d1 = Inr f"
      and h: "handleSubmit s = send_start f (s\<lparr>dom := d2\<rparr>)" by blast
    have "payload_safe d1"
      using safe form_shape_validateForm(2) [OF v] by (simp add: payload_safe_def)
    then have "list_all (\<lambda>(k, v). is_text v) (build_payload f)"
      using payload_all_text [OF c] by (simp add: payload_safe_controls)
    with True ok h show ?thesis by (simp add: page_step_def build_payload_keys)
  qed
qed (use ok sent_other_events in simp)

lemma sent_text_run:
  "payload_safe (dom s) \<Longrightarrow>
   list_all (\<lambda>r. map fst (snd r) = payload_keys \<and> list_all (\<lambda>(k, v). is_text v) (snd r)) (sent s) \<Longrightarrow>
   list_all (\<lambda>r. map fst (snd r) = payload_keys \<and> list_all (\<lambda>(k, v). is_text v) (snd r))
     (sent (page_run s es))"
proof (induction es arbitrary: s)
  case (Cons e es)
  have "payload_safe (dom (page_step s e))"
    using Cons.prems(1) form_shape_step [of s e] by (simp add: payload_safe_def)
  with Cons show ?case by (simp add: sent_text_step)
qed simp

text \<open>
  C20.  No file content ever leaves the page: on a form where no file input is named
  with a key of the request body, every request the page sends, in any run, has
  exactly the twelve fixed keys in order and only text values.
\<close>

theorem requests_carry_text_only:
  assumes "payload_safe d0"
  shows "list_all (\<lambda>r. map fst (snd r) = payload_keys \<and> list_all (\<lambda>(k, v). is_text v) (snd r))
           (sent (page_run (page_init d0) es))"
  using sent_text_run [of "page_init d0" es] assms by (simp add: page_init_def)

subsection \<open>Notifications\<close>

lemma alerts_step:
  assumes "filter is_alert (dialogs s) = map (\<lambda>(_, oc, _). outcome_alert oc) (outcomes s)"
  shows "filter is_alert (dialogs (page_step s e)) = map (\<lambda>(_, oc, _). outcome_alert oc) (outcomes (page_step s e))"
proof (cases e)
  case Submit
  from handleSubmit_cases [of s] show ?thesis
  proof
    assume "\<exists>d1. handleSubmit s = s\<lparr>dom := d1\<rparr>"
    with Submit assms show ?thesis by (auto simp: page_step_def)
  qed (use Submit assms in \<open>auto simp: page_step_def\<close>)
qed (use assms in \<open>auto simp: page_step_def settle_ok_def settle_error_def outcome_alert_def Let_def
      split: option.splits\<close>)

lemma outcome_alert_inj: "inj outcome_alert"
proof (rule injI)
  fix a b assume "outcome_alert a = outcome_alert b"
  then show "a = b"
    by (cases a; cases b)
       (simp_all add: outcome_alert_def msg_success_def error_alert_def msg_timeout_def msg_connection_def)
qed

text \<open>
  C19.  Every settled request is reported by exactly one notification and nothing else
  is: in every run, the alerts the page has shown are, in order, the notifications of
  the recorded outcomes; and the notification tells the three outcomes apart (a
  timeout is reported differently from a connection failure).
\<close>

theorem every_outcome_alerted:
  "filter is_alert (dialogs (page_run (page_init d) es)) =
     map (\<lambda>(_, oc, _). outcome_alert oc) (outcomes (page_run (page_init d) es)) \<and>
   inj outcome_alert"
proof -
  have "filter is_alert (dialogs (page_run s es)) = map (\<lambda>(_, oc, _). outcome_alert oc) (outcomes (page_run s es))"
    if "filter is_alert (dialogs s) = map (\<lambda>(_, oc, _). outcome_alert oc) (outcomes s)" for s
    using that by (induction es arbitrary: s) (simp_all add: alerts_step)
  then show ?thesis
    using outcome_alert_inj by (simp add: page_init_def)
qed

subsection \<open>Clearing the form\<close>

text \<open>
  C21.  The clear button asks for confirmation; confirmed, it restores every control's
  default value and check state, empties every file selection, removes every error
  class, empties every error message and puts the placeholder back into the upload
  display; declined, it leaves the page as it was.  Either way the request bookkeeping
  and the submit button are not touched.
\<close>

theorem clear_button_effect:
  "dialogs (page_step s (ClearClick a)) = dialogs s @ [Confirm msg_confirm_clear a] \<and>
   sent (page_step s (ClearClick a)) = sent s \<and> inflight (page_step s (ClearClick a)) = inflight s \<and>
   submit_btn (dom (page_step s (ClearClick a))) = submit_btn (dom s) \<and>
   (if a then
      controls (dom (page_step s (ClearClick a))) =
        map (\<lambda>c. c\<lparr>cvalue := cdef_value c, cchecked := cdef_checked c, cerror := False, cfiles := []\<rparr>)
          (controls (dom s)) \<and>
      list_all (\<lambda>sl. smsg sl \<longrightarrow> stext sl = []) (slots (dom (page_step s (ClearClick a)))) \<and>
      file_display (dom (page_step s (ClearClick a))) = upload_placeholder
    else dom (page_step s (ClearClick a)) = dom s)"
  by (auto simp: page_step_def clearForm_def Let_def form_reset_def clearAllErrors_def list_all_iff)

text \<open>
  C22.  After a success, the offer to clear the form asks twice: when the prompt timer
  fires, \<open>confirm\<close> offers to clear, and a user who accepts is asked again by
  \<open>clearForm\<close>; the form is cleared only when both answers are yes.
\<close>

theorem success_prompt_asks_twice:
  assumes "find (\<lambda>t. t \<le> now s) (prompt_timers s) = Some t"
  shows "drop (length (dialogs s)) (dialogs (page_step s (PromptTimer a b))) =
           Confirm msg_offer_clear a # (if a then [Confirm msg_confirm_clear b] else []) \<and>
         dom (page_step s (PromptTimer a b)) = (if a \<and> b then dom (clearForm True s) else dom s)"
  using assms by (simp add: page_step_def clearForm_def Let_def)

subsection \<open>The input listeners\<close>

lemma form_shape_length: "form_shape d' = form_shape d \<Longrightarrow> length (controls d') = length (controls d)"
  unfolding form_shape_def by (drule arg_cong [where f = length]) simp

lemma form_shape_nth:
  assumes "form_shape d' = form_shape d" and "j < length (controls d)"
  shows "cname (controls d' ! j) = cname (controls d ! j)" "ctype (controls d' ! j) = ctype (controls d ! j)"
proof -
  have eq: "map (\<lambda>c. (cname c, cid c, ctype c)) (controls d') = map (\<lambda>c. (cname c, cid c, ctype c)) (controls d)"
    using assms(1) by (simp add: form_shape_def)
  from arg_cong [OF eq, of "\<lambda>xs. xs ! j"] assms(2) form_shape_length [OF assms(1)]
  show "cname (controls d' ! j) = cname (controls d ! j)" "ctype (controls d' ! j) = ctype (controls d ! j)"
    by simp_all
qed

lemma first_index_shape:
  assumes "form_shape d' = form_shape d"
  shows "first_index (\<lambda>c. cname c = n) d' = first_index (\<lambda>c. cname c = n) d"
  unfolding first_index_def form_shape_length [OF assms]
  by (rule find_cong_set) (simp add: form_shape_nth [OF assms])

lemma slots_user_edit [simp]:
  "slots (set_control k f d) = slots d" "slots (set_value_by_id j v d) = slots d"
  "slots (phone_input v d) = slots d"
  by (simp_all add: set_control_def set_value_by_id_def phone_input_def Let_def split: option.splits)

lemma clears_on_first:
  assumes shape: "form_shape d2 = form_shape d" and i: "i < length (controls d)"
    and n: "cname (controls d ! i) = n" "n \<in> set requiredFields"
    and first: "first_index (\<lambda>c. cname c = n) d = Some i" and nr: "ctype (controls d ! i) \<noteq> Radio"
  shows "clears_on True i d2 = Some n"
proof -
  note sh = form_shape_nth [OF shape i] form_shape_length [OF shape]
  have f2: "first_index (\<lambda>c. cname c = n) d2 = Some i"
    using first first_index_shape [OF shape] by simp
  then have "i < length (controls d2) \<and> (\<forall>j<i. \<not> cname (controls d2 ! j) = n)"
    using find_upt_nth [of "\<lambda>c. cname c = n" "controls d2" i] by (simp add: first_index_def)
  then have "query_name n d2 = Some (controls d2 ! i)"
    using sh n by (simp add: query_name_def find_first_nth)
  with sh n nr f2 show ?thesis by (simp add: clears_on_def)
qed

lemma user_type_clears:
  assumes i: "i < length (controls d)"
    and n: "cname (controls d ! i) = n" "n \<in> set requiredFields"
    and first: "first_index (\<lambda>c. cname c = n) d = Some i" and nr: "ctype (controls d ! i) \<noteq> Radio"
  shows "\<exists>d2. user_type i v d = clearError n d2 \<and> slots d2 = slots d \<and> form_shape d2 = form_shape d"
proof -
  define d2 where "d2 = (if first_index (\<lambda>c. cid c = ''phone'') d = Some i then phone_input v d
                         else set_control i (\<lambda>c. c\<lparr>cvalue := v\<rparr>) d)"
  have shape: "form_shape d2 = form_shape d" and sl: "slots d2 = slots d"
    by (simp_all add: d2_def form_shape_set_control)
  have "user_type i v d = run_clear_listener True i d2"
    using i by (simp add: user_type_def d2_def Let_def)
  also have "\<dots> = clearError n d2"
    using clears_on_first [OF shape i n first nr] by (simp add: run_clear_listener_def)
  finally show ?thesis using shape sl by blast
qed

text \<open>
  C23.  Typing into a required field clears that field's error at once: when the
  control typed into is the first element with its required name and not a radio
  button, its error message slot is emptied and, unless it is a checkbox, its error
  class is removed.
\<close>

theorem typing_clears_field_error:
  assumes i: "i < length (controls d)"
    and n: "cname (controls d ! i) = n" "n \<in> set requiredFields"
    and first: "first_index (\<lambda>c. cname c = n) d = Some i" and nr: "ctype (controls d ! i) \<noteq> Radio"
  shows "slot_by_id (err_id n) (user_type i v d) = map_option (\<lambda>sl. sl\<lparr>stext := []\<rparr>) (slot_by_id (err_id n) d) \<and>
         (ctype (controls d ! i) \<noteq> Checkbox \<longrightarrow> \<not> cerror (controls (user_type i v d) ! i))"
proof -
  obtain d2 where ut: "user_type i v d = clearError n d2" and sl: "slots d2 = slots d"
    and shape: "form_shape d2 = form_shape d"
    using user_type_clears [OF i n first nr] by blast
  note sh = form_shape_nth [OF shape i] form_shape_length [OF shape]
  have slot: "slot_by_id (err_id n) (user_type i v d) = map_option (\<lambda>sl. sl\<lparr>stext := []\<rparr>) (slot_by_id (err_id n) d)"
    using sl by (simp add: ut clearError_def slot_by_id_def set_slot_text_def find_upd_first_same)
  have "first_index (\<lambda>c. cname c = n) d2 = Some i"
    using first first_index_shape [OF shape] by simp
  then have fi: "\<forall>j<i. \<not> cname (controls d2 ! j) = n"
    using find_upt_nth [of "\<lambda>c. cname c = n" "controls d2" i] by (simp add: first_index_def)
  have "ctype (controls d ! i) \<noteq> Checkbox \<longrightarrow> \<not> cerror (controls (clearError n d2) ! i)"
    using upd_first_nth [of i "controls d2" "\<lambda>c. cname c = n"] fi sh n nr i
    by (simp add: clearError_def set_field_error_def set_slot_text_def)
  with slot ut show ?thesis by simp
qed

lemma query_name_shape:
  assumes "form_shape d' = form_shape d"
  shows "map_option ctype (query_name n d') = map_option ctype (query_name n d)"
proof -
  have proj: "map_option (\<lambda>c. (cname c, cid c, ctype c)) (query_name n x) = find (\<lambda>t. fst t = n) (form_shape x)"
    for x by (simp add: query_name_def form_shape_def find_map_eq comp_def)
  have "map_option (snd \<circ> snd) (map_option (\<lambda>c. (cname c, cid c, ctype c)) (query_name n d')) =
        map_option (snd \<circ> snd) (map_option (\<lambda>c. (cname c, cid c, ctype c)) (query_name n d))"
    by (simp only: proj assms)
  then show ?thesis by (simp add: option.map_comp comp_def)
qed

lemma cchecked_clearError:
  "map cchecked (controls (clearError n d)) = map cchecked (controls d)"
  by (simp add: clearError_def set_field_error_def set_slot_text_def map_upd_first_inv)

lemma user_check_radio:
  assumes i: "i < length (controls d)" and r: "ctype (controls d ! i) = Radio" "\<not> cchecked (controls d ! i)"
    and n: "cname (controls d ! i) = n" "n \<in> set requiredFields"
    and g: "map_option ctype (query_name n d) = Some Radio"
  shows "user_check i d =
           clearError n (d\<lparr>controls := map (\<lambda>(j, x). if j = i then x\<lparr>cchecked := True\<rparr>
              else if ctype x = Radio \<and> cname x = n then x\<lparr>cchecked := False\<rparr> else x)
              (zip [0..<length (controls d)] (controls d))\<rparr>)"
proof -
  let ?d1 = "d\<lparr>controls := map (\<lambda>(j, x). if j = i then x\<lparr>cchecked := True\<rparr>
              else if ctype x = Radio \<and> cname x = n then x\<lparr>cchecked := False\<rparr> else x)
              (zip [0..<length (controls d)] (controls d))\<rparr>"
  have shape: "form_shape ?d1 = form_shape d"
    by (simp add: form_shape_def form_shape_radio_group)
  obtain f where f: "query_name n ?d1 = Some f" "ctype f = Radio"
    using query_name_shape [OF shape, of n] g by (cases "query_name n ?d1") auto
  have "clears_on False i ?d1 = Some n"
    using i n f by (simp add: clears_on_def)
  moreover have "user_check i d = run_clear_listener False i ?d1"
    using i r n(1) by (simp add: user_check_def Let_def cong: if_cong)
  ultimately show ?thesis
    by (simp add: run_clear_listener_def)
qed

text \<open>
  C24.  Clicking an unchecked radio button of a required group checks it, unchecks the
  other radio buttons of its group, leaves every other check state alone, and clears
  the group's error message at once.
\<close>

theorem checking_radio_clears_error:
  assumes i: "i < length (controls d)" and r: "ctype (controls d ! i) = Radio" "\<not> cchecked (controls d ! i)"
    and n: "cname (controls d ! i) = n" "n \<in> set requiredFields"
    and g: "map_option ctype (query_name n d) = Some Radio"
  shows "slot_by_id (err_id n) (user_check i d) = map_option (\<lambda>sl. sl\<lparr>stext := []\<rparr>) (slot_by_id (err_id n) d) \<and>
         map cchecked (controls (user_check i d)) =
           map (\<lambda>(j, x). if j = i then True else if ctype x = Radio \<and> cname x = n then False else cchecked x)
             (zip [0..<length (controls d)] (controls d))"
proof -
  note eq = user_check_radio [OF i r n g]
  have "slot_by_id (err_id n) (user_check i d) = map_option (\<lambda>sl. sl\<lparr>stext := []\<rparr>) (slot_by_id (err_id n) d)"
    by (simp add: eq clearError_def slot_by_id_def set_slot_text_def find_upd_first_same)
  moreover have "map cchecked (controls (user_check i d)) =
           map (\<lambda>(j, x). if j = i then True else if ctype x = Radio \<and> cname x = n then False else cchecked x)
             (zip [0..<length (controls d)] (controls d))"
    by (simp only: eq cchecked_clearError) (auto simp: comp_def split: prod.splits intro!: map_cong)
  ultimately show ?thesis ..
qed

end
