(* ===== verification/Sample.thy ===== *)
theory Sample
  imports Lifecycle
begin

text \<open>
  A concrete page for the witnesses: the application form as the script expects it
  (the HTML is not in the repository; this is the page its selectors describe), filled
  in correctly, variants of it that fail one rule each, and the states the page goes
  through while its request is in flight.
\<close>

definition mk_control :: "string \<Rightarrow> string \<Rightarrow> input_type \<Rightarrow> jsstring \<Rightarrow> bool \<Rightarrow> control" where
  "mk_control n i t v ch =
     \<lparr>cname = n, cid = i, ctype = t, cvalue = v, cchecked = ch, cdisabled = False, cerror = False,
      cfiles = [], cdef_value = [], cdef_checked = False\<rparr>"

definition mk_slot :: "string \<Rightarrow> slot" where
  "mk_slot n = \<lparr>sid = err_id n, smsg = True, stext = []\<rparr>"

definition sample_resume :: jsfile where
  "sample_resume = \<lparr>fname = js_str ''cv.pdf'', fmime = ''application/pdf'', fsize = 1024\<rparr>"

definition sample_controls :: "jsstring \<Rightarrow> jsstring \<Rightarrow> control list" where
  "sample_controls full pw =
     [mk_control ''fullName'' ''fullName'' Text full False,
      mk_control ''email'' ''email'' Email (js_str ''maria@exemplo.com'') False,
      mk_control ''phone'' ''phone'' Tel (js_str ''(11) 98765-4321'') False,
      mk_control ''birthDate'' ''birthDate'' Date (js_str ''1990-05-17'') False,
      (mk_control ''gender'' ''genderM'' Radio (js_str ''M'') False),
      (mk_control ''gender'' ''genderF'' Radio (js_str ''F'') True),
      mk_control ''address'' ''address'' Text (js_str ''Rua A, 10'') False,
      mk_control ''password'' ''password'' Password pw False,
      (mk_control ''acceptTerms'' ''acceptTerms'' Checkbox (js_str ''on'') True),
      (mk_control ''resume'' ''resume'' File [] False)\<lparr>cfiles := [sample_resume]\<rparr>]"

definition sample_page :: "jsstring \<Rightarrow> jsstring \<Rightarrow> doc" where
  "sample_page full pw =
     \<lparr>controls = sample_controls full pw,
      slots = map mk_slot [''fullName'', ''email'', ''phone'', ''birthDate'', ''gender'', ''password'',
                           ''acceptTerms'', ''resume''],
      labels = [(''fullName'', js_str ''Nome Completo *''), (''email'', js_str ''E-mail *''),
                (''phone'', js_str ''Telefone *''), (''birthDate'', js_str ''Data de Nascimento *'')],
      file_display = [],
      submit_btn = Some \<lparr>bdisabled = False, bhtml = js_str ''Enviar''\<rparr>\<rparr>"

definition sample_doc :: doc where
  "sample_doc = sample_page (js_str ''Maria Silva'') (js_str ''abcd1234'')"

definition blank_name_doc :: doc where
  "blank_name_doc = sample_page (js_str ''   '') (js_str ''abcd1234'')"

definition txt_file :: jsfile where
  "txt_file = \<lparr>fname = js_str ''notes'', fmime = ''text/plain'', fsize = 1024\<rparr>"

definition big_pdf :: jsfile where
  "big_pdf = \<lparr>fname = js_str ''cv-scan.pdf'', fmime = ''application/pdf'', fsize = 6 * 1024 * 1024\<rparr>"

definition gender_disabled_doc :: doc where
  "gender_disabled_doc =
     sample_doc\<lparr>controls := map (\<lambda>c. if cname c = ''gender'' then c\<lparr>cdisabled := True\<rparr> else c)
                                (controls sample_doc)\<rparr>"

text \<open>The sample page while its request is in flight, and after it settled.\<close>

definition sample_busy_doc :: doc where
  "sample_busy_doc = (clearAllErrors sample_doc)\<lparr>submit_btn := Some \<lparr>bdisabled = True, bhtml = loading_html\<rparr>\<rparr>"

definition sample_idle_doc :: doc where
  "sample_idle_doc = (clearAllErrors sample_doc)\<lparr>submit_btn := Some \<lparr>bdisabled = False, bhtml = idle_html\<rparr>\<rparr>"

text \<open>The page after a submit with a blank name: the name's error is shown.\<close>

definition name_error_doc :: doc where
  "name_error_doc = showError ''fullName'' (msg_required (js_str ''Nome Completo'')) blank_name_doc"

text \<open>The sample page with the gender error shown (the unchecked radio is the first).\<close>

definition gender_error_doc :: doc where
  "gender_error_doc = showError ''gender'' msg_gender sample_doc"

lemmas sample_defs = sample_doc_def blank_name_doc_def sample_page_def sample_controls_def
  mk_control_def mk_slot_def sample_resume_def txt_file_def big_pdf_def gender_disabled_doc_def

end
