(* ===== verification/Spec2Isabelle.thy ===== *)
theory Spec2Isabelle
  imports Sample
begin

text \<open>
  \<^bold>\<open>A verification development for src/script.js of the job-application form.\<close>

  \<^bold>\<open>The program.\<close>  One browser script (301 lines) wires a job-application form.
  \<open>validateForm\<close> checks the required fields and shows inline errors through
  \<open>showError\<close>/\<open>clearError\<close>/\<open>clearAllErrors\<close>.  The change handler of the upload
  control (\<open>setupFileUpload\<close>) accepts only PDF files up to 5 MiB.  \<open>collectFormData\<close>
  and \<open>sendToGoogleSheets\<close> serialise the form and post it with a 30 s abort timer.
  \<open>handleSubmit\<close>, \<open>clearForm\<close>, \<open>showLoadingMessage\<close>/\<open>hideLoadingMessage\<close>, the
  per-field listeners of \<open>setupEventListeners\<close> and the phone mask make up the page's
  event handling.

  \<^bold>\<open>Library layout.\<close>
  \<^item> \<open>Prelude\<close>: rule collections (\<open>js_simps\<close>, \<open>dom_simps\<close>), \<open>upd_first\<close> (the
    "mutate the first element a query finds" pattern) and generic lemmas on lists, finds
    and multisets.
  \<^item> \<open>JsString\<close>: JavaScript strings as lists of UTF-16 code units (\<open>16 word\<close>),
    the classes \<open>\s\<close> and \<open>\d\<close>, \<open>trim\<close>, and \<open>replace\<close> with a string pattern.
    These are the ECMAScript builtins the script calls, not code of the repository.
  \<^item> \<open>Dom\<close>: the page as a record (controls in document order, error slots, labels,
    upload display, submit button); the Field Registry \<open>requiredFields\<close> (line 8); the
    Error Presenter \<open>showError\<close>, \<open>clearError\<close>, \<open>clearAllErrors\<close> (lines 215--254).
    A DOM query that finds nothing is \<open>None\<close>.  A handler's result is \<open>'a dom_result\<close>:
    either a value with the new page, or a \<open>TypeError\<close> with the page as it was when the
    exception left the handler (DOM writes are not undone).
  \<^item> \<open>Validator\<close>: \<open>isValidEmail\<close> (the regular expression as a list of atoms and a
    backtracking matcher \<open>re_match\<close>) and \<open>validateForm\<close> (lines 143--195).  The code
    is written as it runs: a fold over \<open>requiredFields\<close> that reads the page, calls
    \<open>showError\<close> and may throw.  Beside it is the pure validation the spec's design notes
    ask for (\<open>field_message\<close>, \<open>validation_errors\<close>); the code is proved to refine it.
  \<^item> \<open>FileGuard\<close>: the upload change listener \<open>resume_change\<close> (lines 39--63) and the
    user's choice of files \<open>choose_resume\<close>; the spec's four outcomes \<open>upload_verdict\<close>.
  \<^item> \<open>PhoneMask\<close>: the phone input listener (lines 289--300); \<open>phone_format\<close> is its
    string computation.
  \<^item> \<open>Collector\<close>: \<open>collectFormData\<close> (lines 198--212) over the HTML form-entry list,
    and the request body \<open>build_payload\<close> of \<open>sendToGoogleSheets\<close> (lines 87--99).
  \<^item> \<open>Lifecycle\<close>: the page as a record \<open>page\<close>.  It holds the document, a clock
    \<open>now\<close> in ms, the log \<open>sent\<close> of request bodies with their start times, the
    requests in flight, the armed abort and prompt timers, the outcomes and the dialog log.
    \<open>page_step\<close> is one event: submit, a network answer, a timer, a click, typing, a
    check, a file choice, or time passing.  It runs \<open>handleSubmit\<close>, the code after
    \<open>await fetch\<close> (\<open>settle_ok\<close>, \<open>settle_error\<close>), \<open>clearForm\<close>, and the listeners
    \<open>setupEventListeners\<close> installs.  \<open>allowed\<close> says which events the browser can
    deliver: submit only through an enabled button, and time does not pass an armed abort
    timer.  \<open>reach\<close> is the inductive set of pages reachable under \<open>allowed\<close>.
  \<^item> \<open>Sample\<close>: a concrete page, the one the script's selectors describe, used by
    the witnesses below.

  \<^bold>\<open>What is proved.\<close>
  \<^item> Validation: C1 accepts exactly the forms satisfying the spec's rules; C2 the code
    refines "compute the messages, then present them"; C3 a field's error slot is
    filled exactly when it fails; C4 the language of the e-mail pattern.
  \<^item> Upload: C5 the four outcomes of the spec; C6 no file over 5 MiB stays selected;
    C7 a rejected file after an accepted one leaves the old name on display.
  \<^item> Phone mask: C8 the closed form (2/4/4 and 2/5/4 digit groups); C9 idempotence;
    C10 the digits are kept; C11 the field's value after typing, in every case,
    including the raw input kept when it has more than 11 digits.
  \<^item> Collection and payload: C12 the object built from the entries; C13 the twelve keys,
    text values only, and the file's name; C14 a missing entry is sent as
    \<open>"undefined"\<close>.
  \<^item> Lifecycle: C15 a request is sent only by a submit that validated; C16 the button is
    disabled exactly while the (single) request is in flight; C17 every request settles
    within \<open>abort_delay\<close> = 30000 ms, and a timeout exactly at the deadline; C18 from
    every reachable page, time alone brings the page back to idle with the button
    enabled; C19 one alert per outcome, and the alerts tell the outcomes apart; C20 no
    file content is ever sent; C21 the clear button's effect; C22 the post-success offer
    asks twice; C23 typing clears the field's error; C24 clicking a radio button updates
    its group and clears the group's error.

  \<^bold>\<open>Bounds and timing.\<close>  No model needs fuel: every loop of the script is a
  \<open>forEach\<close> over a list, modelled by structural recursion, and the regex matcher
  recurses on the input.  Time is a natural-number clock advanced by \<open>Elapse\<close>.
  Timers fire at their deadline: \<open>allowed\<close> keeps time from passing an armed abort
  timer, which is what C17 and C18 rely on.  The schedule \<open>settle_all\<close> of C18 fires the
  pending abort timers in deadline order, so it has at most one pair of events per
  timer.

  \<^bold>\<open>Not modelled.\<close>
  \<^item> \<open>console.log\<close>/\<open>console.error\<close>: output only.
  \<^item> The styling of the page.
  \<^item> The remote Apps Script endpoint.  The spec treats it as opaque.  Its answer is the
    event \<open>NetResolve\<close>/\<open>NetReject\<close>.
  \<^item> The bytes of the request.  The body is its list of (key, value) entries.
  \<^item> The blocking of \<open>alert\<close>/\<open>confirm\<close>.  Their answers are parameters of the event
    that shows them.
\<close>

text \<open>Witness for C1: the filled-in sample page is accepted.\<close>

theorem validateForm_accepts_iff_witness:
  "wf_required sample_doc \<and> (\<exists>d'. validateForm sample_doc = Inr (True, d'))"
proof -
  have w: "wf_required sample_doc"
    by (simp add: sample_defs wf_required_def requiredFields_def query_name_def label_text_def
        control_by_id_def)
  show ?thesis
    using w Validator.validateForm_accepts_iff [OF w]
    by (simp add: sample_defs value_of_def checked_of_def email_value_def gender_checked_def
        query_name_def control_by_id_def is_checkable_def js_is_ws_def isValidEmail_def
        emailRegex_def not_ws_at_def)
qed

text \<open>Witness for C3: with a blank name, the name's error slot is filled.\<close>

theorem validateForm_marks_exactly_witness:
  "wf_required blank_name_doc \<and>
   slot_by_id (err_id ''fullName'') blank_name_doc = Some (mk_slot ''fullName'') \<and>
   smsg (mk_slot ''fullName'') \<and>
   (\<exists>d' t. validateForm blank_name_doc = Inr (False, d') \<and>
      slot_by_id (err_id ''fullName'') d' = Some t \<and> stext t \<noteq> [])"
proof -
  have w: "wf_required blank_name_doc"
    by (simp add: sample_defs wf_required_def requiredFields_def query_name_def label_text_def
        control_by_id_def)
  have sl: "slot_by_id (err_id ''fullName'') blank_name_doc = Some (mk_slot ''fullName'')"
    by (simp add: sample_defs slot_by_id_def)
  have s: "smsg (mk_slot ''fullName'')" by (simp add: mk_slot_def)
  obtain m where m: "field_message ''fullName'' blank_name_doc = Inr (Some m)"
    by (simp add: sample_defs field_message_def query_name_def js_trim_empty_iff js_is_ws_def
        label_text_def)
  have req: "''fullName'' \<in> set requiredFields" by (simp add: requiredFields_def)
  have "(''fullName'', m) \<in> set (fst (validation_errors blank_name_doc))"
    using validation_errors_wf_set [OF w, of "''fullName''" m] m req by simp
  then have ne: "(fst (validation_errors blank_name_doc) = []) = False" by auto
  obtain d' t where "validateForm blank_name_doc = Inr (fst (validation_errors blank_name_doc) = [], d')"
    and "slot_by_id (err_id ''fullName'') d' = Some t"
    and "stext t = [] \<longleftrightarrow>
           (''fullName'' \<in> set requiredFields \<longrightarrow> field_message ''fullName'' blank_name_doc = Inr None) \<and>
           (''fullName'' = ''email'' \<longrightarrow> email_message blank_name_doc = Inr None)"
    using Validator.validateForm_marks_exactly [OF w sl s] by blast
  with w sl s m req ne show ?thesis by auto
qed

lemma sample_resume_exists: "control_by_id ''resume'' sample_doc \<noteq> None"
  by (simp add: sample_defs control_by_id_def)

text \<open>Witness for C5: a text file (wrong MIME type) is rejected with the type message.\<close>

theorem choose_resume_contract_witness:
  "control_by_id ''resume'' sample_doc \<noteq> None \<and>
   resume_files (choose_resume [txt_file] sample_doc) = [] \<and>
   file_display (choose_resume [txt_file] sample_doc) = file_display sample_doc \<and>
   slot_text ''resume'' (choose_resume [txt_file] sample_doc) = Some msg_pdf_only"
  using sample_resume_exists FileGuard.choose_resume_contract [OF sample_resume_exists, of "[txt_file]"]
  by (simp add: upload_verdict_def txt_file_def sample_defs slot_by_id_def)

text \<open>Witness for C6: a 6 MiB PDF is rejected.\<close>

theorem choose_resume_size_bound_witness:
  "control_by_id ''resume'' sample_doc \<noteq> None \<and> fmime big_pdf = ''application/pdf'' \<and>
   resume_files (choose_resume [big_pdf] sample_doc) = []"
proof -
  have m: "fmime big_pdf = ''application/pdf''" by (simp add: big_pdf_def)
  show ?thesis
    using sample_resume_exists m FileGuard.choose_resume_size_bound [OF sample_resume_exists m, of "[]"]
    by (simp add: big_pdf_def)
qed

text \<open>Witness for C7: after \<open>cv.pdf\<close> was accepted, a rejected text file leaves its name shown.\<close>

theorem rejected_after_accepted_keeps_name_witness:
  "control_by_id ''resume'' sample_doc \<noteq> None \<and>
   upload_verdict [sample_resume] = Accepted \<and> upload_verdict [txt_file] = RejectedType \<and>
   resume_files (choose_resume [txt_file] (choose_resume [sample_resume] sample_doc)) = [] \<and>
   file_display (choose_resume [txt_file] (choose_resume [sample_resume] sample_doc)) =
     pdf_icon_html @ js_str ''cv.pdf''"
proof -
  have g: "upload_verdict [sample_resume] = Accepted"
    by (simp add: upload_verdict_def sample_resume_def max_upload_size_def)
  have b: "upload_verdict [txt_file] = RejectedType"
    by (simp add: upload_verdict_def txt_file_def)
  show ?thesis
    using sample_resume_exists g b
      FileGuard.rejected_after_accepted_keeps_name [OF sample_resume_exists g, of txt_file]
    by (simp add: sample_resume_def)
qed

lemma phone_example_11: "phone_format (js_str ''11987654321'') = Some (js_str ''(11) 98765-4321'')"
  by (simp add: phone_format_def mask_groups.simps js_is_digit_def)

lemma phone_example_10: "phone_format (js_str ''1133334444'') = Some (js_str ''(11) 3333-4444'')"
  by (simp add: phone_format_def mask_groups.simps js_is_digit_def)

text \<open>Witness for C9: the 11-digit example of the spec is stable under the mask.\<close>

theorem phone_format_idempotent_witness:
  "phone_format (js_str ''11987654321'') = Some (js_str ''(11) 98765-4321'') \<and>
   phone_format (js_str ''(11) 98765-4321'') = Some (js_str ''(11) 98765-4321'')"
  using phone_example_11 PhoneMask.phone_format_idempotent [OF phone_example_11] by simp

text \<open>Witness for C10: the 10-digit example keeps its ten digits.\<close>

theorem phone_format_keeps_digits_witness:
  "phone_format (js_str ''1133334444'') = Some (js_str ''(11) 3333-4444'') \<and>
   filter js_is_digit (js_str ''(11) 3333-4444'') = filter js_is_digit (js_str ''1133334444'')"
  using phone_example_10 PhoneMask.phone_format_keeps_digits [OF phone_example_10] by simp

text \<open>Witness for C11: typing 12 digits into the sample page's phone field leaves them as typed.\<close>

theorem phone_input_effect_witness:
  "control_by_id ''phone'' sample_doc = Some (mk_control ''phone'' ''phone'' Tel (js_str ''(11) 98765-4321'') False) \<and>
   map_option cvalue (control_by_id ''phone'' (phone_input (js_str ''119876543210'') sample_doc)) =
     Some (js_str ''119876543210'')"
proof -
  have c: "control_by_id ''phone'' sample_doc = Some (mk_control ''phone'' ''phone'' Tel (js_str ''(11) 98765-4321'') False)"
    by (simp add: sample_doc_def sample_page_def sample_controls_def control_by_id_def mk_control_def)
  show ?thesis
    using c PhoneMask.phone_input_effect [OF c, of "js_str ''119876543210''"] by (simp add: js_is_digit_def)
qed

lemma sample_resume_control:
  "control_by_id ''resume'' sample_doc = Some ((mk_control ''resume'' ''resume'' File [] False)\<lparr>cfiles := [sample_resume]\<rparr>)"
  by (simp add: sample_defs control_by_id_def)

text \<open>Witness for C12: on the sample page the object holds the resume file and the name.\<close>

theorem collectFormData_lookup_witness:
  "control_by_id ''resume'' sample_doc = Some ((mk_control ''resume'' ''resume'' File [] False)\<lparr>cfiles := [sample_resume]\<rparr>) \<and>
   (\<exists>data. collectFormData sample_doc = Inr data \<and> data ''resumeFile'' = Some (FFile sample_resume) \<and>
      data ''fullName'' = Some (FStr (js_str ''Maria Silva'')))"
  using sample_resume_control Collector.collectFormData_lookup [OF sample_resume_control]
  by (auto simp: sample_defs form_entries_def control_entries_def)

text \<open>Witness for C13: the sample page's request carries the twelve keys and \<open>cv.pdf\<close>.\<close>

theorem payload_shape_witness:
  "\<exists>data. collectFormData sample_doc = Inr data \<and>
     list_all (\<lambda>c. ctype c = File \<longrightarrow> cname c \<notin> set payload_keys) (controls sample_doc) \<and>
     list_all (\<lambda>c. cname c \<noteq> ''resumeFile'') (controls sample_doc) \<and>
     map fst (build_payload data) = payload_keys \<and>
     snd (last (build_payload data)) = FStr (js_str ''cv.pdf'')"
proof -
  obtain data where data: "collectFormData sample_doc = Inr data"
    by (simp add: collectFormData_def sample_defs control_by_id_def)
  have f: "list_all (\<lambda>c. ctype c = File \<longrightarrow> cname c \<notin> set payload_keys) (controls sample_doc)"
    by (simp add: sample_defs payload_keys_def)
  have r: "list_all (\<lambda>c. cname c \<noteq> ''resumeFile'') (controls sample_doc)"
    by (simp add: sample_defs)
  show ?thesis
    using data f r Collector.payload_shape [OF data f r] sample_resume_control
    by (auto simp: sample_resume_def)
qed

text \<open>Witness for C14: the page whose gender radios are disabled.\<close>

theorem payload_missing_gender_undefined_witness:
  "\<exists>data. collectFormData gender_disabled_doc = Inr data \<and>
     list_all (\<lambda>c. cname c = ''gender'' \<longrightarrow> cdisabled c) (controls gender_disabled_doc) \<and>
     map_of (build_payload data) ''gender'' = Some (FStr (js_str ''undefined''))"
proof -
  obtain data where data: "collectFormData gender_disabled_doc = Inr data"
    by (simp add: collectFormData_def sample_defs control_by_id_def)
  have g: "list_all (\<lambda>c. cname c = ''gender'' \<longrightarrow> cdisabled c) (controls gender_disabled_doc)"
    by (simp add: sample_defs)
  show ?thesis
    using data g Collector.payload_missing_gender_undefined [OF data g] by blast
qed

subsection \<open>The sample page through the lifecycle\<close>

lemma sample_wf: "wf_required sample_doc"
  by (simp add: sample_defs wf_required_def requiredFields_def query_name_def label_text_def
      control_by_id_def)

lemma sample_no_errors: "validation_errors sample_doc = ([], None)"
  by (simp add: validation_errors_def sample_defs requiredFields_def field_message_def email_message_def
      query_name_def Let_def is_checkable_def js_trim_def js_is_ws_def label_text_def control_by_id_def
      isValidEmail_def emailRegex_def not_ws_at_def gender_checked_def)

lemma sample_validateForm: "validateForm sample_doc = Inr (True, clearAllErrors sample_doc)"
  using validateForm_wf [OF sample_wf] sample_no_errors by simp

lemma sample_btn: "submit_btn sample_doc = Some \<lparr>bdisabled = False, bhtml = js_str ''Enviar''\<rparr>"
  by (simp add: sample_doc_def sample_page_def)

lemma sample_collect: "control_by_id ''resume'' d = Some fi \<Longrightarrow> \<exists>data. collectFormData d = Inr data"
  using collectFormData_Some by blast

lemma sample_submit:
  "\<exists>data. page_step (page_init sample_doc) Submit =
       \<lparr>dom = sample_busy_doc, now = 0, sent = [(0, build_payload data)], inflight = [0],
        abort_timers = [(0, 30000)], prompt_timers = [], outcomes = [], dialogs = []\<rparr>"
proof -
  obtain data where c: "collectFormData (clearAllErrors sample_doc) = Inr data"
    using sample_collect [of "clearAllErrors sample_doc"]
    by (auto simp: sample_defs control_by_id_def clearAllErrors_def)
  then show ?thesis
    by (simp add: page_step_def handleSubmit_def sample_validateForm showLoadingMessage_def sample_btn
        send_start_def page_init_def sample_busy_doc_def abort_delay_def) blast
qed

lemma busy_btn: "submit_btn sample_busy_doc = Some \<lparr>bdisabled = True, bhtml = loading_html\<rparr>"
  by (simp add: sample_busy_doc_def)


lemma timeout_run:
  "\<exists>p. page_run (page_init sample_doc) [Submit, Elapse 30000, AbortTimer 0] =
     \<lparr>dom = sample_idle_doc, now = 30000, sent = [(0, p)], inflight = [], abort_timers = [],
      prompt_timers = [], outcomes = [(0, Timeout, 30000)], dialogs = [Alert (error_alert msg_timeout)]\<rparr>"
proof -
  obtain data where s1: "page_step (page_init sample_doc) Submit =
       \<lparr>dom = sample_busy_doc, now = 0, sent = [(0, build_payload data)], inflight = [0],
        abort_timers = [(0, 30000)], prompt_timers = [], outcomes = [], dialogs = []\<rparr>"
    using sample_submit by blast
  show ?thesis
    unfolding page_run_simps s1
    by (simp add: page_step_def Let_def settle_error_def hideLoadingMessage_def busy_btn
        sample_idle_doc_def sample_busy_doc_def)
qed

lemma success_run:
  "\<exists>p. page_run (page_init sample_doc) [Submit, NetResolve 0, Elapse 1000] =
     \<lparr>dom = sample_idle_doc, now = 1000, sent = [(0, p)], inflight = [], abort_timers = [],
      prompt_timers = [1000], outcomes = [(0, Success, 0)], dialogs = [Alert msg_success]\<rparr>"
proof -
  obtain data where s1: "page_step (page_init sample_doc) Submit =
       \<lparr>dom = sample_busy_doc, now = 0, sent = [(0, build_payload data)], inflight = [0],
        abort_timers = [(0, 30000)], prompt_timers = [], outcomes = [], dialogs = []\<rparr>"
    using sample_submit by blast
  show ?thesis
    unfolding page_run_simps s1
    by (simp add: page_step_def settle_ok_def hideLoadingMessage_def busy_btn prompt_delay_def
        sample_idle_doc_def sample_busy_doc_def)
qed

lemma sample_allowed:
  "allowed_run (page_init sample_doc) [Submit, Elapse 30000, AbortTimer 0]"
  "allowed_run (page_init sample_doc) [Submit, NetResolve 0, Elapse 1000]"
proof -
  obtain data where s1: "page_step (page_init sample_doc) Submit =
       \<lparr>dom = sample_busy_doc, now = 0, sent = [(0, build_payload data)], inflight = [0],
        abort_timers = [(0, 30000)], prompt_timers = [], outcomes = [], dialogs = []\<rparr>"
    using sample_submit by blast
  show "allowed_run (page_init sample_doc) [Submit, Elapse 30000, AbortTimer 0]"
    "allowed_run (page_init sample_doc) [Submit, NetResolve 0, Elapse 1000]"
    unfolding allowed_run.simps s1
    by (simp_all add: allowed_def page_init_def sample_btn page_step_def settle_ok_def)
qed

text \<open>Witness for C16: right after the sample page is submitted.\<close>

theorem submit_button_tracks_request_witness:
  "reach sample_doc (page_step (page_init sample_doc) Submit) \<and>
   submit_btn sample_doc = Some \<lparr>bdisabled = False, bhtml = js_str ''Enviar''\<rparr> \<and>
   inflight (page_step (page_init sample_doc) Submit) = [0] \<and>
   (\<exists>b. submit_btn (dom (page_step (page_init sample_doc) Submit)) = Some b \<and>
      bdisabled b \<and> bhtml b = loading_html)"
proof -
  have r: "reach sample_doc (page_step (page_init sample_doc) Submit)"
    by (rule reach_step [OF reach_init]) (simp add: allowed_def page_init_def sample_btn)
  obtain data where s1: "page_step (page_init sample_doc) Submit =
       \<lparr>dom = sample_busy_doc, now = 0, sent = [(0, build_payload data)], inflight = [0],
        abort_timers = [(0, 30000)], prompt_timers = [], outcomes = [], dialogs = []\<rparr>"
    using sample_submit by blast
  show ?thesis
    using Lifecycle.submit_button_tracks_request [OF r sample_btn] r sample_btn unfolding s1 by simp
qed

text \<open>Witness for C17: the sample request times out.\<close>

theorem request_settles_by_deadline_witness:
  "reach sample_doc (page_run (page_init sample_doc) [Submit, Elapse 30000, AbortTimer 0]) \<and>
   outcomes (page_run (page_init sample_doc) [Submit, Elapse 30000, AbortTimer 0]) = [(0, Timeout, 30000)] \<and>
   fst (sent (page_run (page_init sample_doc) [Submit, Elapse 30000, AbortTimer 0]) ! 0) + abort_delay = 30000"
proof -
  have r: "reach sample_doc (page_run (page_init sample_doc) [Submit, Elapse 30000, AbortTimer 0])"
    by (rule reach_run [OF reach_init sample_allowed(1)])
  obtain p where run: "page_run (page_init sample_doc) [Submit, Elapse 30000, AbortTimer 0] =
     \<lparr>dom = sample_idle_doc, now = 30000, sent = [(0, p)], inflight = [], abort_timers = [],
      prompt_timers = [], outcomes = [(0, Timeout, 30000)], dialogs = [Alert (error_alert msg_timeout)]\<rparr>"
    using timeout_run by blast
  show ?thesis
    using Lifecycle.request_settles_by_deadline [OF r] r run by auto
qed

text \<open>Witness for C18: the sample request in flight.\<close>

theorem page_returns_to_idle_witness:
  "reach sample_doc (page_step (page_init sample_doc) Submit) \<and>
   settle_all (page_step (page_init sample_doc) Submit) = [Elapse 30000, AbortTimer 0] \<and>
   inflight (page_run (page_step (page_init sample_doc) Submit) [Elapse 30000, AbortTimer 0]) = [] \<and>
   allowed_run (page_step (page_init sample_doc) Submit) [Elapse 30000, AbortTimer 0]"
proof -
  have r: "reach sample_doc (page_step (page_init sample_doc) Submit)"
    by (rule reach_step [OF reach_init]) (simp add: allowed_def page_init_def sample_btn)
  obtain data where s1: "page_step (page_init sample_doc) Submit =
       \<lparr>dom = sample_busy_doc, now = 0, sent = [(0, build_payload data)], inflight = [0],
        abort_timers = [(0, 30000)], prompt_timers = [], outcomes = [], dialogs = []\<rparr>"
    using sample_submit by blast
  have sa: "settle_all (page_step (page_init sample_doc) Submit) = [Elapse 30000, AbortTimer 0]"
    by (simp add: s1 settle_all_def)
  show ?thesis
    using Lifecycle.page_returns_to_idle [OF r sample_btn] r sa by simp
qed


text \<open>Witness for C15: the sample page is submitted.\<close>

theorem send_requires_valid_form_witness:
  "sent (page_step (page_init sample_doc) Submit) \<noteq> sent (page_init sample_doc) \<and>
   (\<exists>d1 formData. validateForm (dom (page_init sample_doc)) = Inr (True, d1) \<and>
      collectFormData d1 = Inr formData \<and>
      sent (page_step (page_init sample_doc) Submit) = [(0, build_payload formData)])"
proof -
  obtain data where s1: "page_step (page_init sample_doc) Submit =
       \<lparr>dom = sample_busy_doc, now = 0, sent = [(0, build_payload data)], inflight = [0],
        abort_timers = [(0, 30000)], prompt_timers = [], outcomes = [], dialogs = []\<rparr>"
    using sample_submit by blast
  have ne: "sent (page_step (page_init sample_doc) Submit) \<noteq> sent (page_init sample_doc)"
    unfolding s1 by (simp add: page_init_def)
  show ?thesis
    using Lifecycle.send_requires_valid_form [OF ne] ne unfolding s1 by (simp add: page_init_def)
qed

lemma sample_payload_safe: "payload_safe sample_doc"
  by (simp add: payload_safe_def form_shape_def sample_defs payload_keys_def)

text \<open>Witness for C20: the sample page with its PDF resume.\<close>

theorem requests_carry_text_only_witness:
  "payload_safe sample_doc \<and>
   length (sent (page_run (page_init sample_doc) [Submit])) = 1 \<and>
   list_all (\<lambda>r. map fst (snd r) = payload_keys \<and> list_all (\<lambda>(k, v). is_text v) (snd r))
     (sent (page_run (page_init sample_doc) [Submit]))"
proof -
  obtain data where s1: "page_step (page_init sample_doc) Submit =
       \<lparr>dom = sample_busy_doc, now = 0, sent = [(0, build_payload data)], inflight = [0],
        abort_timers = [(0, 30000)], prompt_timers = [], outcomes = [], dialogs = []\<rparr>"
    using sample_submit by blast
  show ?thesis
    using Lifecycle.requests_carry_text_only [OF sample_payload_safe, of "[Submit]"] sample_payload_safe s1
    by simp
qed

text \<open>Witness for C21: the clear button on the sample page.\<close>

theorem clear_button_effect_witness:
  "dialogs (page_step (page_init sample_doc) (ClearClick True)) = [Confirm msg_confirm_clear True] \<and>
   list_all (\<lambda>sl. stext sl = []) (slots (dom (page_step (page_init sample_doc) (ClearClick True)))) \<and>
   file_display (dom (page_step (page_init sample_doc) (ClearClick True))) = upload_placeholder \<and>
   dom (page_step (page_init sample_doc) (ClearClick False)) = sample_doc"
proof -
  have "list_all smsg (slots (dom (page_step (page_init sample_doc) (ClearClick True))))"
    by (simp add: page_step_def clearForm_def clearAllErrors_def form_reset_def page_init_def sample_defs)
  then show ?thesis
    using Lifecycle.clear_button_effect [of "page_init sample_doc" True]
      Lifecycle.clear_button_effect [of "page_init sample_doc" False]
    by (simp add: page_init_def list_all_iff)
qed

text \<open>Witness for C22: the user accepts the offer, then declines the second question.\<close>

theorem success_prompt_asks_twice_witness:
  "find (\<lambda>t. t \<le> now (page_run (page_init sample_doc) [Submit, NetResolve 0, Elapse 1000]))
     (prompt_timers (page_run (page_init sample_doc) [Submit, NetResolve 0, Elapse 1000])) = Some 1000 \<and>
   drop (length (dialogs (page_run (page_init sample_doc) [Submit, NetResolve 0, Elapse 1000])))
     (dialogs (page_step (page_run (page_init sample_doc) [Submit, NetResolve 0, Elapse 1000]) (PromptTimer True False))) =
     [Confirm msg_offer_clear True, Confirm msg_confirm_clear False] \<and>
   dom (page_step (page_run (page_init sample_doc) [Submit, NetResolve 0, Elapse 1000]) (PromptTimer True False)) =
     sample_idle_doc"
proof -
  obtain p where run: "page_run (page_init sample_doc) [Submit, NetResolve 0, Elapse 1000] =
     \<lparr>dom = sample_idle_doc, now = 1000, sent = [(0, p)], inflight = [], abort_timers = [],
      prompt_timers = [1000], outcomes = [(0, Success, 0)], dialogs = [Alert msg_success]\<rparr>"
    using success_run by blast
  have f: "find (\<lambda>t. t \<le> now (page_run (page_init sample_doc) [Submit, NetResolve 0, Elapse 1000]))
     (prompt_timers (page_run (page_init sample_doc) [Submit, NetResolve 0, Elapse 1000])) = Some 1000"
    unfolding run by simp
  show ?thesis
    using Lifecycle.success_prompt_asks_twice [OF f, of True False] f unfolding run by simp
qed

text \<open>Witness for C23: typing a name after a blank-name error.\<close>

theorem typing_clears_field_error_witness:
  "slot_by_id (err_id ''fullName'') name_error_doc =
     Some \<lparr>sid = err_id ''fullName'', smsg = True, stext = msg_required (js_str ''Nome Completo'')\<rparr> \<and>
   cerror (controls name_error_doc ! 0) \<and>
   slot_by_id (err_id ''fullName'') (user_type 0 (js_str ''Maria'') name_error_doc) =
     Some \<lparr>sid = err_id ''fullName'', smsg = True, stext = []\<rparr> \<and>
   \<not> cerror (controls (user_type 0 (js_str ''Maria'') name_error_doc) ! 0)"
proof -
  have c: "0 < length (controls name_error_doc)" "cname (controls name_error_doc ! 0) = ''fullName''"
    "''fullName'' \<in> set requiredFields" "first_index (\<lambda>c. cname c = ''fullName'') name_error_doc = Some 0"
    "ctype (controls name_error_doc ! 0) \<noteq> Radio"
    by (simp_all add: name_error_doc_def sample_defs showError_def set_field_error_def set_slot_text_def
        requiredFields_def first_index_def)
  have sl: "slot_by_id (err_id ''fullName'') name_error_doc =
     Some \<lparr>sid = err_id ''fullName'', smsg = True, stext = msg_required (js_str ''Nome Completo'')\<rparr>"
    by (simp add: name_error_doc_def sample_defs showError_def set_field_error_def set_slot_text_def
        slot_by_id_def err_id_def)
  have ce: "cerror (controls name_error_doc ! 0)" "ctype (controls name_error_doc ! 0) \<noteq> Checkbox"
    by (simp_all add: name_error_doc_def sample_defs showError_def set_field_error_def set_slot_text_def)
  show ?thesis
    using Lifecycle.typing_clears_field_error [OF c, of "js_str ''Maria''"] sl ce by simp
qed

text \<open>Witness for C24: the user picks the other gender while the gender error is shown.\<close>

theorem checking_radio_clears_error_witness:
  "slot_by_id (err_id ''gender'') gender_error_doc =
     Some \<lparr>sid = err_id ''gender'', smsg = True, stext = msg_gender\<rparr> \<and>
   slot_by_id (err_id ''gender'') (user_check 4 gender_error_doc) =
     Some \<lparr>sid = err_id ''gender'', smsg = True, stext = []\<rparr> \<and>
   map cchecked (controls (user_check 4 gender_error_doc)) =
     [False, False, False, False, True, False, False, False, True, False]"
proof -
  have c: "4 < length (controls gender_error_doc)" "ctype (controls gender_error_doc ! 4) = Radio"
    "\<not> cchecked (controls gender_error_doc ! 4)" "cname (controls gender_error_doc ! 4) = ''gender''"
    "''gender'' \<in> set requiredFields" "map_option ctype (query_name ''gender'' gender_error_doc) = Some Radio"
    by (simp_all add: gender_error_doc_def sample_defs showError_def set_field_error_def set_slot_text_def
        requiredFields_def query_name_def)
  have sl: "slot_by_id (err_id ''gender'') gender_error_doc =
     Some \<lparr>sid = err_id ''gender'', smsg = True, stext = msg_gender\<rparr>"
    by (simp add: gender_error_doc_def sample_defs showError_def set_field_error_def set_slot_text_def
        slot_by_id_def err_id_def)
  have "map (\<lambda>(j, x). if j = 4 then True else if ctype x = Radio \<and> cname x = ''gender'' then False else cchecked x)
          (zip [0..<length (controls gender_error_doc)] (controls gender_error_doc)) =
        [False, False, False, False, True, False, False, False, True, False]"
    by (simp add: gender_error_doc_def sample_defs showError_def set_field_error_def set_slot_text_def
        upt_rec)
  then show ?thesis
    using Lifecycle.checking_radio_clears_error [OF c] sl by simp
qed

end
